theory Spec2Isabelle
  imports Main "HOL-Library.Word" "HOL-Library.AList"
begin

unbundle bit_operations_syntax

section \<open>Values, code units and the host interface\<close>

text \<open>
  The virtual machine of \<^verbatim>\<open>byterun.py\<close> runs on top of a host interpreter. What the
  machine itself inspects is modelled concretely: integers, booleans, strings, \<^verbatim>\<open>None\<close>,
  lists, dictionaries, modules, code units, \<^verbatim>\<open>Function\<close> objects and exception classes.
  Every other host object is an opaque \<open>VHost\<close> value.

  Dictionaries are mutable and shared (a frame's local and global scope may be the same
  object, a function keeps the global scope it was made in), so they live in a store and
  values hold their address. Lists are held by value. Exceptions are identified by their
  class: message texts and tracebacks are not part of the model. What \<^verbatim>\<open>print\<close> writes
  is not recorded, but a \<^verbatim>\<open>print\<close> that interpolates operands is a step of the model,
  since formatting a value can raise; names, opcode names and exceptions are taken to
  format without fault.
\<close>

datatype exc_kind =
    NameError | UnboundLocalError | KeyError | IndexError | TypeError | ValueError
  | AttributeError | ZeroDivisionError | RecursionError | StopIteration
  | VirtualMachineError | HostError nat

datatype pyval =
    VNone
  | VBool bool
  | VInt int
  | VStr string
  | VList "pyval list"
  | VDict nat
  | VModule nat
  | VCode code
  | VFunction func
  | VIter "pyval list"
  | VExcClass exc_kind
  | VExcInst exc_kind
  | VHost nat
and code =
    Code (co_code: "8 word list") (co_consts: "pyval list") (co_names: "string list")
         (co_varnames: "string list") (co_argcount: nat) (co_name: string)
and func =
    Func (func_name: pyval) (func_code: code) (func_defaults: "pyval list")
         (func_globals: nat) (func_locals: nat) (func_dict: nat) (func_doc: pyval)

type_synonym dict = "(pyval \<times> pyval) list"

text \<open>
  The host interface: the tables of the host's \<^verbatim>\<open>dis\<close> module, the module's own
  \<^verbatim>\<open>__builtins__\<close>, and the value protocols (operators, attributes, calls of host
  callables) on operands the model does not interpret itself. All of it is a parameter of
  the machine.
\<close>

record host =
  opname :: "nat \<Rightarrow> string"
  HAVE_ARGUMENT :: nat
  hasconst :: "nat list"
  hasname :: "nat list"
  haslocal :: "nat list"
  hasjrel :: "nat list"
  host_builtins :: pyval
  host_dict :: "pyval \<Rightarrow> pyval option"
  host_truth :: "pyval \<Rightarrow> exc_kind + bool"
  host_binary :: "string \<Rightarrow> pyval \<Rightarrow> pyval \<Rightarrow> exc_kind + pyval"
  host_unary :: "string \<Rightarrow> pyval \<Rightarrow> exc_kind + pyval"
  host_compare :: "nat \<Rightarrow> pyval \<Rightarrow> pyval \<Rightarrow> exc_kind + pyval"
  host_getattr :: "pyval \<Rightarrow> pyval \<Rightarrow> exc_kind + pyval"
  host_setattr :: "pyval \<Rightarrow> pyval \<Rightarrow> pyval \<Rightarrow> exc_kind option"
  host_setitem :: "pyval \<Rightarrow> pyval \<Rightarrow> pyval \<Rightarrow> exc_kind + pyval"
  host_iter :: "pyval \<Rightarrow> exc_kind + pyval"
  host_next :: "pyval \<Rightarrow> exc_kind + pyval \<times> pyval"
  host_call :: "pyval \<Rightarrow> pyval list \<Rightarrow> exc_kind + pyval"
  host_format :: "pyval \<Rightarrow> exc_kind option"
  host_repr :: "pyval \<Rightarrow> exc_kind option"

section \<open>Blocks, frames and the machine state\<close>

record block =
  b_type :: string
  handler :: pyval
  stack_height :: nat

text \<open>
  A \<^verbatim>\<open>Frame\<close>. The scopes \<open>global_names\<close> and \<open>local_names\<close> are addresses of
  dictionaries; \<open>builtin_names\<close> is whatever value the constructor found. The field
  \<^verbatim>\<open>prev_frame\<close> is read by the constructor only and is not kept.
\<close>

record frame =
  code_obj :: code
  global_names :: nat
  local_names :: nat
  builtin_names :: pyval
  stack :: "pyval list"
  block_stack :: "block list"
  last_instruction :: pyval

text \<open>
  The \<^verbatim>\<open>VirtualMachine\<close> object. \<^verbatim>\<open>self.frame\<close> is always the last element of
  \<^verbatim>\<open>self.frames\<close> (or \<^verbatim>\<open>None\<close> when that list is empty), so it is read off
  \<open>frames\<close>. \<open>dicts\<close> is the store of dictionaries and \<open>next_dict\<close> the first address
  not in use.
\<close>

record vm =
  frames :: "frame list"
  return_value :: pyval
  last_exception :: "(pyval \<times> pyval \<times> pyval) option"
  dicts :: "nat \<Rightarrow> dict"
  next_dict :: nat

type_synonym 'a res = "(exc_kind + 'a) \<times> vm"

definition cur_frame :: "vm \<Rightarrow> frame option" where
  "cur_frame s = (if frames s = [] then None else Some (last (frames s)))"

definition set_frame :: "frame \<Rightarrow> vm \<Rightarrow> vm" where
  "set_frame f s = s\<lparr>frames := butlast (frames s) @ [f]\<rparr>"

text \<open>Sequencing of two steps; a raised exception skips the rest and keeps the state.\<close>

definition bnd :: "(vm \<Rightarrow> 'a res) \<Rightarrow> ('a \<Rightarrow> vm \<Rightarrow> 'b res) \<Rightarrow> vm \<Rightarrow> 'b res" where
  "bnd m k s = (case m s of (Inl e, s') \<Rightarrow> (Inl e, s') | (Inr a, s') \<Rightarrow> k a s')"

definition ret :: "'a \<Rightarrow> vm \<Rightarrow> 'a res" where
  "ret a s = (Inr a, s)"

definition raise :: "exc_kind \<Rightarrow> vm \<Rightarrow> 'a res" where
  "raise e s = (Inl e, s)"

text \<open>
  \<^verbatim>\<open>self.frame\<close> followed by an attribute access: on \<^verbatim>\<open>None\<close> the access raises
  \<^verbatim>\<open>AttributeError\<close>.
\<close>

definition the_frame :: "vm \<Rightarrow> frame res" where
  "the_frame s = (case cur_frame s of None \<Rightarrow> (Inl AttributeError, s) | Some f \<Rightarrow> (Inr f, s))"

section \<open>Host-language primitives used by the machine\<close>

text \<open>An integer as Python sees it: \<^verbatim>\<open>bool\<close> is a subclass of \<^verbatim>\<open>int\<close>.\<close>

fun as_int :: "pyval \<Rightarrow> int option" where
  "as_int (VInt i) = Some i"
| "as_int (VBool b) = Some (if b then 1 else 0)"
| "as_int _ = None"

text \<open>
  Subscription \<^verbatim>\<open>xs[i]\<close> of a sequence by an integer. From \<open>- length xs\<close> up to
  \<open>-1\<close> the position is taken relative to the end; outside both ranges the host raises
  \<^verbatim>\<open>IndexError\<close>.
\<close>

definition py_pos :: "nat \<Rightarrow> int \<Rightarrow> nat option" where
  "py_pos n i =
     (if 0 \<le> i \<and> i < int n then Some (nat i)
      else if i < 0 \<and> - int n \<le> i then Some (nat (int n + i))
      else None)"

definition py_index :: "'a list \<Rightarrow> int \<Rightarrow> exc_kind + 'a" where
  "py_index xs i =
     (case py_pos (length xs) i of None \<Rightarrow> Inl IndexError | Some j \<Rightarrow> Inr (xs ! j))"

text \<open>\<^verbatim>\<open>xs[i:j]\<close>: both bounds are clipped to the sequence.\<close>

definition py_clip :: "nat \<Rightarrow> int \<Rightarrow> nat" where
  "py_clip n i = (if i < 0 then nat (max 0 (int n + i)) else min n (nat i))"

definition py_slice :: "'a list \<Rightarrow> int \<Rightarrow> int \<Rightarrow> 'a list" where
  "py_slice xs i j = drop (py_clip (length xs) i) (take (py_clip (length xs) j) xs)"

section \<open>Instruction decoding\<close>

text \<open>
  \<^verbatim>\<open>VirtualMachine.parse_byte_and_args\<close>. The instruction pointer of a frame is an
  arbitrary value (\<^verbatim>\<open>jump\<close> stores what it is given); comparing a value that is not
  an integer with a length raises \<^verbatim>\<open>TypeError\<close>.
\<close>

definition resolve_arg :: "host \<Rightarrow> code \<Rightarrow> nat \<Rightarrow> int \<Rightarrow> nat \<Rightarrow> pyval" where
  "resolve_arg h c byteCode li arg_val =
     (if byteCode \<in> set (hasconst h) then
        (if arg_val < length (co_consts c) then co_consts c ! arg_val else VNone)
      else if byteCode \<in> set (hasname h) then
        (if arg_val < length (co_names c) then VStr (co_names c ! arg_val) else VInt (int arg_val))
      else if byteCode \<in> set (haslocal h) then
        (if arg_val < length (co_varnames c) then VStr (co_varnames c ! arg_val)
         else VInt (int arg_val))
      else if byteCode \<in> set (hasjrel h) then VInt (li + int arg_val)
      else VInt (int arg_val))"

definition parse_byte_and_args :: "host \<Rightarrow> vm \<Rightarrow> (string \<times> pyval list) res" where
  "parse_byte_and_args h s =
     (case cur_frame s of
        None \<Rightarrow> (Inl AttributeError, s)
      | Some f \<Rightarrow>
        (case as_int (last_instruction f) of
           None \<Rightarrow> (Inl TypeError, s)
         | Some opoffset \<Rightarrow>
           let c = code_obj f in
           if opoffset \<ge> int (length (co_code c)) then (Inr (''RETURN_VALUE'', []), s)
           else
             (case py_index (co_code c) opoffset of
                Inl e \<Rightarrow> (Inl e, s)
              | Inr b \<Rightarrow>
                let byteCode = unat b;
                    li1 = opoffset + 1;
                    s1 = set_frame (f\<lparr>last_instruction := VInt li1\<rparr>) s;
                    byte_name = opname h byteCode
                in
                if byteCode \<ge> HAVE_ARGUMENT h then
                  (if li1 + 1 \<ge> int (length (co_code c)) then (Inr (byte_name, [VInt 0]), s1)
                   else
                     let arg_bytes = py_slice (co_code c) li1 (li1 + 2);
                         li3 = li1 + 2;
                         s3 = set_frame (f\<lparr>last_instruction := VInt li3\<rparr>) s
                     in
                     (case py_index arg_bytes 0 of
                        Inl e \<Rightarrow> (Inl e, s3)
                      | Inr b0 \<Rightarrow>
                        (case py_index arg_bytes 1 of
                           Inl e \<Rightarrow> (Inl e, s3)
                         | Inr b1 \<Rightarrow>
                           let arg_val = unat b0 OR push_bit 8 (unat b1)
                           in (Inr (byte_name, [resolve_arg h c byteCode li3 arg_val]), s3))))
                else (Inr (byte_name, []), s1))))"

section \<open>Dictionaries\<close>

text \<open>
  A dictionary is an association list in insertion order. Lists and dictionaries cannot
  be keys (\<^verbatim>\<open>TypeError\<close>: unhashable); \<^verbatim>\<open>True\<close> and \<^verbatim>\<open>False\<close> are the keys 1 and 0.
\<close>

fun hashable :: "pyval \<Rightarrow> bool" where
  "hashable (VList _) = False"
| "hashable (VDict _) = False"
| "hashable _ = True"

fun dict_key :: "pyval \<Rightarrow> pyval" where
  "dict_key (VBool b) = VInt (if b then 1 else 0)"
| "dict_key v = v"

definition dict_contains :: "dict \<Rightarrow> pyval \<Rightarrow> exc_kind + bool" where
  "dict_contains d k =
     (if hashable k then Inr (map_of d (dict_key k) \<noteq> None) else Inl TypeError)"

definition dict_getitem :: "dict \<Rightarrow> pyval \<Rightarrow> exc_kind + pyval" where
  "dict_getitem d k =
     (if hashable k then (case map_of d (dict_key k) of None \<Rightarrow> Inl KeyError | Some v \<Rightarrow> Inr v)
      else Inl TypeError)"

definition dict_setitem :: "dict \<Rightarrow> pyval \<Rightarrow> pyval \<Rightarrow> exc_kind + dict" where
  "dict_setitem d k v =
     (if hashable k then Inr (AList.update (dict_key k) v d) else Inl TypeError)"

text \<open>\<^verbatim>\<open>d.update(other)\<close> for a dictionary \<open>other\<close>, whose keys are hashable already.\<close>

fun dict_update :: "dict \<Rightarrow> dict \<Rightarrow> dict" where
  "dict_update d [] = d"
| "dict_update d ((k, v) # kvs) = dict_update (AList.update (dict_key k) v d) kvs"

text \<open>Lifting a host result into the machine, and a new dictionary in the store.\<close>

definition lift :: "exc_kind + 'a \<Rightarrow> vm \<Rightarrow> 'a res" where
  "lift r s = (r, s)"

definition new_dict :: "dict \<Rightarrow> vm \<Rightarrow> nat res" where
  "new_dict d s =
     (Inr (next_dict s), s\<lparr>dicts := (dicts s)(next_dict s := d), next_dict := Suc (next_dict s)\<rparr>)"

definition set_dict :: "nat \<Rightarrow> dict \<Rightarrow> vm \<Rightarrow> unit res" where
  "set_dict a d s = (Inr (), s\<lparr>dicts := (dicts s)(a := d)\<rparr>)"

text \<open>
  \<^verbatim>\<open>name in x\<close>, \<^verbatim>\<open>x[name]\<close> and \<^verbatim>\<open>x[name] = v\<close>: on a dictionary they are the
  operations above, on any other value they are the host's.
\<close>

definition py_contains :: "host \<Rightarrow> pyval \<Rightarrow> pyval \<Rightarrow> vm \<Rightarrow> bool res" where
  "py_contains h x name s =
     (case x of
        VDict a \<Rightarrow> (dict_contains (dicts s a) name, s)
      | _ \<Rightarrow> (case host_binary h ''contains'' x name of
                Inl e \<Rightarrow> (Inl e, s)
              | Inr v \<Rightarrow> (host_truth h v, s)))"

definition py_getitem :: "host \<Rightarrow> pyval \<Rightarrow> pyval \<Rightarrow> vm \<Rightarrow> pyval res" where
  "py_getitem h x name s =
     (case x of
        VDict a \<Rightarrow> (dict_getitem (dicts s a) name, s)
      | _ \<Rightarrow> (host_binary h ''getitem'' x name, s))"

text \<open>Truth value of an operand, as \<^verbatim>\<open>if val:\<close> takes it.\<close>

definition truthy :: "host \<Rightarrow> pyval \<Rightarrow> vm \<Rightarrow> bool res" where
  "truthy h v s =
     (case v of
        VNone \<Rightarrow> (Inr False, s)
      | VBool b \<Rightarrow> (Inr b, s)
      | VInt i \<Rightarrow> (Inr (i \<noteq> 0), s)
      | VStr x \<Rightarrow> (Inr (x \<noteq> []), s)
      | VList xs \<Rightarrow> (Inr (xs \<noteq> []), s)
      | VDict a \<Rightarrow> (Inr (dicts s a \<noteq> []), s)
      | VHost n \<Rightarrow> (host_truth h v, s)
      | _ \<Rightarrow> (Inr True, s))"

section \<open>Data stack manipulation\<close>

definition top :: "vm \<Rightarrow> pyval res" where
  "top = bnd the_frame (\<lambda>f. lift (py_index (stack f) (- 1)))"

definition pop :: "vm \<Rightarrow> pyval res" where
  "pop = bnd the_frame (\<lambda>f s.
     if stack f = [] then (Inl IndexError, s)
     else (Inr (last (stack f)), set_frame (f\<lparr>stack := butlast (stack f)\<rparr>) s))"

definition push :: "pyval list \<Rightarrow> vm \<Rightarrow> unit res" where
  "push vals = bnd the_frame (\<lambda>f s. (Inr (), set_frame (f\<lparr>stack := stack f @ vals\<rparr>) s))"

text \<open>
  \<^verbatim>\<open>popn(n)\<close> for an integer \<open>n\<close>: the slice \<^verbatim>\<open>stack[-n:]\<close> is returned and removed.
  With fewer than \<open>n\<close> values on the stack it is the whole stack.
\<close>

definition popn :: "int \<Rightarrow> vm \<Rightarrow> pyval list res" where
  "popn n =
     (if n \<noteq> 0 then
        bnd the_frame (\<lambda>f s.
          let k = py_clip (length (stack f)) (- n)
          in (Inr (drop k (stack f)), set_frame (f\<lparr>stack := take k (stack f)\<rparr>) s))
      else ret [])"

text \<open>
  \<^verbatim>\<open>popn\<close> with an operand as count: a false operand gives the empty list, a true
  operand that is not an integer cannot be negated or used as a slice bound.
\<close>

definition popn_val :: "host \<Rightarrow> pyval \<Rightarrow> vm \<Rightarrow> pyval list res" where
  "popn_val h n =
     (case as_int n of
        Some i \<Rightarrow> popn i
      | None \<Rightarrow> bnd (truthy h n) (\<lambda>t. if t then raise TypeError else ret []))"

text \<open>Unpacking a list into exactly two or three names; otherwise \<^verbatim>\<open>ValueError\<close>.\<close>

definition unpack2 :: "pyval list \<Rightarrow> vm \<Rightarrow> (pyval \<times> pyval) res" where
  "unpack2 xs = (case xs of [a, b] \<Rightarrow> ret (a, b) | _ \<Rightarrow> raise ValueError)"

definition unpack3 :: "pyval list \<Rightarrow> vm \<Rightarrow> (pyval \<times> pyval \<times> pyval) res" where
  "unpack3 xs = (case xs of [a, b, c] \<Rightarrow> ret (a, b, c) | _ \<Rightarrow> raise ValueError)"

section \<open>Block stack manipulation\<close>

definition push_block :: "string \<Rightarrow> pyval \<Rightarrow> vm \<Rightarrow> unit res" where
  "push_block t hdl = bnd the_frame (\<lambda>f s.
     (Inr (), set_frame (f\<lparr>block_stack := block_stack f @
        [\<lparr>b_type = t, handler = hdl, stack_height = length (stack f)\<rparr>]\<rparr>) s))"

definition pop_block :: "vm \<Rightarrow> block res" where
  "pop_block = bnd the_frame (\<lambda>f s.
     if block_stack f = [] then (Inl IndexError, s)
     else (Inr (last (block_stack f)), set_frame (f\<lparr>block_stack := butlast (block_stack f)\<rparr>) s))"

definition stack_depth :: "vm \<Rightarrow> nat" where
  "stack_depth s = (case cur_frame s of None \<Rightarrow> 0 | Some f \<Rightarrow> length (stack f))"

text \<open>The loop \<^verbatim>\<open>while len(self.frame.stack) > k: self.pop()\<close> of \<^verbatim>\<open>unwind_block\<close>.\<close>

function pop_down_to :: "nat \<Rightarrow> vm \<Rightarrow> unit res" where
  "pop_down_to k s =
     (case cur_frame s of
        None \<Rightarrow> (Inl AttributeError, s)
      | Some f \<Rightarrow>
          if length (stack f) > k then
            (case pop s of (Inl e, s') \<Rightarrow> (Inl e, s') | (Inr v, s') \<Rightarrow> pop_down_to k s')
          else (Inr (), s))"
  by pat_completeness auto
termination
  apply (relation "measure (\<lambda>(k, s). stack_depth s)")
   apply simp
  apply (auto simp: pop_def bnd_def the_frame_def stack_depth_def cur_frame_def set_frame_def
      split: if_splits)
  done

definition unwind_block :: "block \<Rightarrow> vm \<Rightarrow> unit res" where
  "unwind_block b =
     (let offset = (if b_type b = ''except-handler'' then 3 else 0) in
      bnd (pop_down_to (stack_height b + offset)) (\<lambda>_.
        if b_type b = ''except-handler'' then
          bnd (popn 3) (\<lambda>vs. bnd (unpack3 vs) (\<lambda>(traceback, value, exctype) s.
            (Inr (), s\<lparr>last_exception := Some (exctype, value, traceback)\<rparr>)))
        else ret ()))"

definition jump :: "pyval \<Rightarrow> vm \<Rightarrow> unit res" where
  "jump target = bnd the_frame (\<lambda>f s. (Inr (), set_frame (f\<lparr>last_instruction := target\<rparr>) s))"

text \<open>
  An unwind signal is a string or \<^verbatim>\<open>None\<close>; \<open>why_val\<close> is the signal as a value on
  the stack and \<open>why_true\<close> its truth value.
\<close>

definition why_val :: "string option \<Rightarrow> pyval" where
  "why_val w = (case w of None \<Rightarrow> VNone | Some x \<Rightarrow> VStr x)"

definition why_true :: "string option \<Rightarrow> bool" where
  "why_true w = (case w of None \<Rightarrow> False | Some x \<Rightarrow> x \<noteq> [])"

definition manage_block_stack :: "string option \<Rightarrow> vm \<Rightarrow> string option res" where
  "manage_block_stack why =
     bnd the_frame (\<lambda>frame.
     bnd (lift (py_index (block_stack frame) (- 1))) (\<lambda>b.
       if b_type b = ''loop'' \<and> why = Some ''continue'' then
         bnd (\<lambda>s. jump (return_value s) s) (\<lambda>_. ret None)
       else
         bnd pop_block (\<lambda>_.
         bnd (unwind_block b) (\<lambda>_.
           if b_type b = ''loop'' \<and> why = Some ''break'' then
             bnd (jump (handler b)) (\<lambda>_. ret None)
           else if b_type b \<in> set [''setup-except'', ''finally''] \<and> why = Some ''exception'' then
             bnd (push_block ''except-handler'' VNone) (\<lambda>_.
             bnd (\<lambda>s. case last_exception s of
                         None \<Rightarrow> (Inl TypeError, s)
                       | Some t \<Rightarrow> (Inr t, s)) (\<lambda>(exctype, value, tb).
             bnd (push [tb, value, exctype]) (\<lambda>_.
             bnd (push [tb, value, exctype]) (\<lambda>_.
             bnd (jump (handler b)) (\<lambda>_. ret None)))))
           else if b_type b = ''finally'' then
             bnd (if why \<in> set [Some ''return'', Some ''continue'']
                  then (\<lambda>s. push [return_value s] s) else ret ()) (\<lambda>_.
             bnd (push [why_val why]) (\<lambda>_.
             bnd (jump (handler b)) (\<lambda>_. ret None)))
           else ret why))))"

section \<open>Operators\<close>

text \<open>
  The functions of the host's \<^verbatim>\<open>operator\<close> module, by name. On two integers the
  arithmetic and bitwise ones that always give an integer are computed here (Python's
  \<^verbatim>\<open>//\<close> and \<^verbatim>\<open>%\<close> round towards minus infinity, as \<open>div\<close> and \<open>mod\<close> do);
  everything else is the host's.
\<close>

definition int_operator :: "string \<Rightarrow> int \<Rightarrow> int \<Rightarrow> (exc_kind + pyval) option" where
  "int_operator name a b =
     (if name = ''add'' then Some (Inr (VInt (a + b)))
      else if name = ''sub'' then Some (Inr (VInt (a - b)))
      else if name = ''mul'' then Some (Inr (VInt (a * b)))
      else if name = ''and_'' then Some (Inr (VInt (a AND b)))
      else if name = ''or_'' then Some (Inr (VInt (a OR b)))
      else if name = ''xor'' then Some (Inr (VInt (a XOR b)))
      else if name = ''floordiv'' then
        Some (if b = 0 then Inl ZeroDivisionError else Inr (VInt (a div b)))
      else if name = ''mod'' then
        Some (if b = 0 then Inl ZeroDivisionError else Inr (VInt (a mod b)))
      else None)"

definition operator :: "host \<Rightarrow> string \<Rightarrow> pyval \<Rightarrow> pyval \<Rightarrow> exc_kind + pyval" where
  "operator h name x y =
     (case (x, y) of
        (VInt a, VInt b) \<Rightarrow>
          (case int_operator name a b of Some r \<Rightarrow> r | None \<Rightarrow> host_binary h name x y)
      | _ \<Rightarrow> host_binary h name x y)"

definition BINARY_OPERATORS :: "(string \<times> string) list" where
  "BINARY_OPERATORS =
     [(''POWER'', ''pow''), (''MULTIPLY'', ''mul''), (''FLOOR_DIVIDE'', ''floordiv''),
      (''TRUE_DIVIDE'', ''truediv''), (''MODULO'', ''mod''), (''ADD'', ''add''),
      (''SUBTRACT'', ''sub''), (''SUBSCR'', ''getitem''), (''LSHIFT'', ''lshift''),
      (''RSHIFT'', ''rshift''), (''AND'', ''and_''), (''XOR'', ''xor''), (''OR'', ''or_'')]"

text \<open>
  \<^verbatim>\<open>COMPARE_OPERATORS\<close> has eleven entries; the six relational ones are computed on
  two integers, the rest is the host's.
\<close>

definition compare_operator :: "host \<Rightarrow> nat \<Rightarrow> pyval \<Rightarrow> pyval \<Rightarrow> exc_kind + pyval" where
  "compare_operator h k x y =
     (case (x, y) of
        (VInt a, VInt b) \<Rightarrow>
          (if k = 0 then Inr (VBool (a < b))
           else if k = 1 then Inr (VBool (a \<le> b))
           else if k = 2 then Inr (VBool (a = b))
           else if k = 3 then Inr (VBool (a \<noteq> b))
           else if k = 4 then Inr (VBool (a > b))
           else if k = 5 then Inr (VBool (a \<ge> b))
           else host_compare h k x y)
      | _ \<Rightarrow> host_compare h k x y)"

definition binaryOperator :: "host \<Rightarrow> string \<Rightarrow> vm \<Rightarrow> unit res" where
  "binaryOperator h op =
     bnd (popn 2) (\<lambda>vs.
     bnd (unpack2 vs) (\<lambda>(x, y).
       case map_of BINARY_OPERATORS op of
         None \<Rightarrow> raise KeyError
       | Some name \<Rightarrow> bnd (lift (operator h name x y)) (\<lambda>r. push [r])))"

definition unaryOperator :: "host \<Rightarrow> string \<Rightarrow> vm \<Rightarrow> unit res" where
  "unaryOperator h op =
     bnd pop (\<lambda>x.
       if op = ''POSITIVE'' then
         (case as_int x of Some i \<Rightarrow> push [VInt i]
          | None \<Rightarrow> bnd (lift (host_unary h ''pos'' x)) (\<lambda>r. push [r]))
       else if op = ''NEGATIVE'' then
         (case as_int x of Some i \<Rightarrow> push [VInt (- i)]
          | None \<Rightarrow> bnd (lift (host_unary h ''neg'' x)) (\<lambda>r. push [r]))
       else if op = ''NOT'' then
         bnd (truthy h x) (\<lambda>t. push [VBool (\<not> t)])
       else if op = ''INVERT'' then
         (case as_int x of Some i \<Rightarrow> push [VInt (NOT i)]
          | None \<Rightarrow> bnd (lift (host_unary h ''invert'' x)) (\<lambda>r. push [r]))
       else raise VirtualMachineError)"

section \<open>Formatting values for diagnostic output\<close>

text \<open>
  The fault, if any, that the host raises when a value is interpolated into an f-string
  (\<open>value_format\<close>) or shown as an element of a printed list (\<open>value_repr\<close>).
  \<^verbatim>\<open>None\<close>, booleans and strings always format. An integer of at most 640 decimal
  digits always formats as well: the host's limit on the conversion of integers to text,
  where it has one, cannot be set lower. A list is shown element by element. Everything
  else is the host's to decide.
\<close>

definition short_int :: "int \<Rightarrow> bool" where
  "short_int n = (\<bar>n\<bar> < 10 ^ 640)"

fun first_fault :: "exc_kind option list \<Rightarrow> exc_kind option" where
  "first_fault [] = None"
| "first_fault (None # faults) = first_fault faults"
| "first_fault (Some e # faults) = Some e"

fun value_repr :: "host \<Rightarrow> pyval \<Rightarrow> exc_kind option" where
  "value_repr h VNone = None"
| "value_repr h (VBool b) = None"
| "value_repr h (VStr x) = None"
| "value_repr h (VInt n) = (if short_int n then None else host_repr h (VInt n))"
| "value_repr h (VList xs) = first_fault (map (value_repr h) xs)"
| "value_repr h v = host_repr h v"

definition value_format :: "host \<Rightarrow> pyval \<Rightarrow> exc_kind option" where
  "value_format h v =
     (case v of
        VNone \<Rightarrow> None
      | VBool b \<Rightarrow> None
      | VStr x \<Rightarrow> None
      | VInt n \<Rightarrow> (if short_int n then None else host_format h v)
      | VList xs \<Rightarrow> value_repr h v
      | _ \<Rightarrow> host_format h v)"

text \<open>A \<^verbatim>\<open>print\<close> whose text interpolates values: the first fault among them is raised.\<close>

definition print_line :: "exc_kind option list \<Rightarrow> vm \<Rightarrow> unit res" where
  "print_line faults = (case first_fault faults of None \<Rightarrow> ret () | Some e \<Rightarrow> raise e)"

section \<open>Instruction handlers\<close>

text \<open>
  A handler returns an unwind signal or \<^verbatim>\<open>None\<close>. Calling a value is a parameter
  \<open>call\<close> of the handlers that need it; it is tied to \<^verbatim>\<open>Function.__call__\<close> below.
\<close>

type_synonym caller = "pyval \<Rightarrow> pyval list \<Rightarrow> vm \<Rightarrow> pyval res"

definition no_signal :: "unit \<Rightarrow> vm \<Rightarrow> string option res" where
  "no_signal u = ret None"

definition byte_COMPARE_OP :: "host \<Rightarrow> pyval \<Rightarrow> vm \<Rightarrow> string option res" where
  "byte_COMPARE_OP h opnum =
     bnd (popn 2) (\<lambda>vs.
     bnd (unpack2 vs) (\<lambda>(x, y).
       case as_int opnum of
         None \<Rightarrow> raise TypeError
       | Some i \<Rightarrow>
         bnd (lift (py_index [0..<11] i)) (\<lambda>k.
         bnd (lift (compare_operator h k x y)) (\<lambda>r.
         bnd (push [r]) no_signal))))"

definition byte_LOAD_CONST :: "pyval \<Rightarrow> vm \<Rightarrow> string option res" where
  "byte_LOAD_CONST const = bnd (push [const]) no_signal"

definition byte_POP_TOP :: "vm \<Rightarrow> string option res" where
  "byte_POP_TOP = bnd pop (\<lambda>_. ret None)"

definition dict_in :: "nat \<Rightarrow> pyval \<Rightarrow> vm \<Rightarrow> bool res" where
  "dict_in a name s = (dict_contains (dicts s a) name, s)"

definition dict_at :: "nat \<Rightarrow> pyval \<Rightarrow> vm \<Rightarrow> pyval res" where
  "dict_at a name s = (dict_getitem (dicts s a) name, s)"

definition dict_store :: "nat \<Rightarrow> pyval \<Rightarrow> pyval \<Rightarrow> vm \<Rightarrow> unit res" where
  "dict_store a name v s =
     (case dict_setitem (dicts s a) name v of
        Inl e \<Rightarrow> (Inl e, s)
      | Inr d \<Rightarrow> set_dict a d s)"

definition byte_LOAD_NAME :: "host \<Rightarrow> pyval \<Rightarrow> vm \<Rightarrow> string option res" where
  "byte_LOAD_NAME h name =
     bnd the_frame (\<lambda>frame.
     bnd (bnd (dict_in (local_names frame) name) (\<lambda>in_locals.
            if in_locals then dict_at (local_names frame) name
            else bnd (dict_in (global_names frame) name) (\<lambda>in_globals.
              if in_globals then dict_at (global_names frame) name
              else bnd (py_contains h (builtin_names frame) name) (\<lambda>in_builtins.
                if in_builtins then py_getitem h (builtin_names frame) name
                else raise NameError)))) (\<lambda>val.
     bnd (push [val]) no_signal))"

definition byte_STORE_NAME :: "pyval \<Rightarrow> vm \<Rightarrow> string option res" where
  "byte_STORE_NAME name =
     bnd pop (\<lambda>v.
     bnd the_frame (\<lambda>frame.
     bnd (dict_store (local_names frame) name v) no_signal))"

definition byte_LOAD_FAST :: "pyval \<Rightarrow> vm \<Rightarrow> string option res" where
  "byte_LOAD_FAST name =
     bnd the_frame (\<lambda>frame.
     bnd (bnd (dict_in (local_names frame) name) (\<lambda>in_locals.
            if in_locals then dict_at (local_names frame) name
            else raise UnboundLocalError)) (\<lambda>val.
     bnd (push [val]) no_signal))"

definition byte_STORE_FAST :: "pyval \<Rightarrow> vm \<Rightarrow> string option res" where
  "byte_STORE_FAST name =
     bnd pop (\<lambda>v.
     bnd the_frame (\<lambda>frame.
     bnd (dict_store (local_names frame) name v) no_signal))"

definition byte_LOAD_GLOBAL :: "host \<Rightarrow> pyval \<Rightarrow> vm \<Rightarrow> string option res" where
  "byte_LOAD_GLOBAL h name =
     bnd the_frame (\<lambda>f.
     bnd (bnd (dict_in (global_names f) name) (\<lambda>in_globals.
            if in_globals then dict_at (global_names f) name
            else bnd (py_contains h (builtin_names f) name) (\<lambda>in_builtins.
              if in_builtins then py_getitem h (builtin_names f) name
              else raise NameError))) (\<lambda>val.
     bnd (push [val]) no_signal))"

definition byte_LOAD_ATTR :: "host \<Rightarrow> pyval \<Rightarrow> vm \<Rightarrow> string option res" where
  "byte_LOAD_ATTR h attr =
     bnd pop (\<lambda>obj.
     bnd (lift (host_getattr h obj attr)) (\<lambda>val.
     bnd (push [val]) no_signal))"

definition byte_STORE_ATTR :: "host \<Rightarrow> pyval \<Rightarrow> vm \<Rightarrow> string option res" where
  "byte_STORE_ATTR h name =
     bnd (popn 2) (\<lambda>vs.
     bnd (unpack2 vs) (\<lambda>(val, obj).
       case host_setattr h obj name val of
         Some e \<Rightarrow> raise e
       | None \<Rightarrow> ret None))"

definition byte_BUILD_LIST :: "host \<Rightarrow> pyval \<Rightarrow> vm \<Rightarrow> string option res" where
  "byte_BUILD_LIST h count =
     bnd (popn_val h count) (\<lambda>elts.
     bnd (push [VList elts]) no_signal)"

definition byte_BUILD_MAP :: "pyval \<Rightarrow> vm \<Rightarrow> string option res" where
  "byte_BUILD_MAP sz =
     bnd (new_dict []) (\<lambda>a.
     bnd (push [VDict a]) no_signal)"

definition byte_STORE_MAP :: "host \<Rightarrow> vm \<Rightarrow> string option res" where
  "byte_STORE_MAP h =
     bnd (popn 3) (\<lambda>vs.
     bnd (unpack3 vs) (\<lambda>(the_map, val, key).
       case the_map of
         VDict a \<Rightarrow> bnd (dict_store a key val) (\<lambda>_. bnd (push [the_map]) no_signal)
       | _ \<Rightarrow> bnd (lift (host_setitem h the_map key val)) (\<lambda>m. bnd (push [m]) no_signal)))"

definition byte_LIST_APPEND :: "host \<Rightarrow> pyval \<Rightarrow> vm \<Rightarrow> string option res" where
  "byte_LIST_APPEND h count =
     bnd pop (\<lambda>val.
     bnd the_frame (\<lambda>f.
       case as_int count of
         None \<Rightarrow> raise TypeError
       | Some i \<Rightarrow>
         (case py_pos (length (stack f)) (- i) of
            None \<Rightarrow> raise IndexError
          | Some j \<Rightarrow>
            (case stack f ! j of
               VList xs \<Rightarrow>
                 (\<lambda>s. (Inr None, set_frame (f\<lparr>stack := (stack f)[j := VList (xs @ [val])]\<rparr>) s))
             | the_list \<Rightarrow>
                 bnd (lift (host_getattr h the_list (VStr ''append''))) (\<lambda>m.
                 bnd (lift (host_call h m [val])) (\<lambda>_. ret None))))))"

definition byte_JUMP_FORWARD :: "pyval \<Rightarrow> vm \<Rightarrow> string option res" where
  "byte_JUMP_FORWARD target = bnd (jump target) no_signal"

definition byte_JUMP_ABSOLUTE :: "pyval \<Rightarrow> vm \<Rightarrow> string option res" where
  "byte_JUMP_ABSOLUTE target = bnd (jump target) no_signal"

definition byte_POP_JUMP_IF_TRUE :: "host \<Rightarrow> pyval \<Rightarrow> vm \<Rightarrow> string option res" where
  "byte_POP_JUMP_IF_TRUE h target =
     bnd pop (\<lambda>val.
     bnd (truthy h val) (\<lambda>t.
       if t then bnd (jump target) no_signal else ret None))"

definition byte_POP_JUMP_IF_FALSE :: "host \<Rightarrow> pyval \<Rightarrow> vm \<Rightarrow> string option res" where
  "byte_POP_JUMP_IF_FALSE h target =
     bnd pop (\<lambda>val.
     bnd (truthy h val) (\<lambda>t.
       if \<not> t then bnd (jump target) no_signal else ret None))"

definition byte_SETUP_LOOP :: "pyval \<Rightarrow> vm \<Rightarrow> string option res" where
  "byte_SETUP_LOOP dest = bnd (push_block ''loop'' dest) no_signal"

text \<open>
  \<^verbatim>\<open>iter\<close> and \<^verbatim>\<open>next\<close>. The iterator of a list is the list of the elements still to
  come; advancing it replaces the iterator where it stands, on top of the stack.
\<close>

definition py_iter :: "host \<Rightarrow> pyval \<Rightarrow> exc_kind + pyval" where
  "py_iter h v = (case v of VList xs \<Rightarrow> Inr (VIter xs) | VIter xs \<Rightarrow> Inr v | _ \<Rightarrow> host_iter h v)"

definition py_next :: "host \<Rightarrow> pyval \<Rightarrow> exc_kind + pyval \<times> pyval" where
  "py_next h it =
     (case it of
        VIter [] \<Rightarrow> Inl StopIteration
      | VIter (x # xs) \<Rightarrow> Inr (x, VIter xs)
      | _ \<Rightarrow> host_next h it)"

definition set_top :: "pyval \<Rightarrow> vm \<Rightarrow> unit res" where
  "set_top v = bnd the_frame (\<lambda>f s.
     (Inr (), set_frame (f\<lparr>stack := butlast (stack f) @ [v]\<rparr>) s))"

definition byte_GET_ITER :: "host \<Rightarrow> vm \<Rightarrow> string option res" where
  "byte_GET_ITER h =
     bnd pop (\<lambda>v.
     bnd (lift (py_iter h v)) (\<lambda>it.
     bnd (push [it]) no_signal))"

definition byte_FOR_ITER :: "host \<Rightarrow> pyval \<Rightarrow> vm \<Rightarrow> string option res" where
  "byte_FOR_ITER h target =
     bnd top (\<lambda>iterobj.
       case py_next h iterobj of
         Inr (v, it) \<Rightarrow> bnd (set_top it) (\<lambda>_. bnd (push [v]) no_signal)
       | Inl e \<Rightarrow>
           if e = StopIteration then bnd pop (\<lambda>_. bnd (jump target) no_signal)
           else raise e)"

definition byte_BREAK_LOOP :: "vm \<Rightarrow> string option res" where
  "byte_BREAK_LOOP = ret (Some ''break'')"

definition byte_POP_BLOCK :: "vm \<Rightarrow> string option res" where
  "byte_POP_BLOCK = bnd pop_block (\<lambda>_. ret None)"

text \<open>
  \<^verbatim>\<open>Function.__init__\<close>, as \<^verbatim>\<open>byte_MAKE_FUNCTION\<close> calls it (the closure is
  \<^verbatim>\<open>None\<close>). A value that is not a code unit has none of the attributes read here.
\<close>

definition Function_init :: "host \<Rightarrow> pyval \<Rightarrow> pyval \<Rightarrow> nat \<Rightarrow> pyval list \<Rightarrow> vm \<Rightarrow> pyval res" where
  "Function_init h name code globs defaults =
     bnd (truthy h name) (\<lambda>named.
       case code of
         VCode c \<Rightarrow>
           bnd the_frame (\<lambda>frame.
           bnd (new_dict []) (\<lambda>d.
             ret (VFunction (Func (if named then name else VStr (co_name c)) c defaults globs
                    (local_names frame) d
                    (if co_consts c \<noteq> [] then co_consts c ! 0 else VNone)))))
       | _ \<Rightarrow> raise AttributeError)"

definition byte_MAKE_FUNCTION :: "host \<Rightarrow> pyval \<Rightarrow> vm \<Rightarrow> string option res" where
  "byte_MAKE_FUNCTION h argc =
     bnd pop (\<lambda>name.
     bnd pop (\<lambda>code.
     bnd (popn_val h argc) (\<lambda>defaults.
     bnd the_frame (\<lambda>frame.
     bnd (Function_init h name code (global_names frame) defaults) (\<lambda>fn.
     bnd (push [fn]) no_signal)))))"

definition byte_CALL_FUNCTION :: "caller \<Rightarrow> pyval \<Rightarrow> vm \<Rightarrow> string option res" where
  "byte_CALL_FUNCTION call arg =
     (case as_int arg of
        None \<Rightarrow> raise TypeError
      | Some i \<Rightarrow>
        bnd (popn (i mod 256)) (\<lambda>posargs.
        bnd pop (\<lambda>func.
        bnd (call func posargs) (\<lambda>retval.
        bnd (push [retval]) no_signal))))"

definition byte_RETURN_VALUE :: "vm \<Rightarrow> string option res" where
  "byte_RETURN_VALUE =
     bnd the_frame (\<lambda>f.
     bnd (if length (stack f) = 0 then (\<lambda>s. (Inr (), s\<lparr>return_value := VNone\<rparr>))
          else bnd pop (\<lambda>v s. (Inr (), s\<lparr>return_value := v\<rparr>))) (\<lambda>_.
     ret (Some ''return'')))"

text \<open>The handlers whose body is \<^verbatim>\<open>pass\<close>.\<close>

definition byte_RESUME :: "pyval \<Rightarrow> vm \<Rightarrow> string option res" where
  "byte_RESUME arg = ret None"

definition byte_CACHE :: "pyval \<Rightarrow> vm \<Rightarrow> string option res" where
  "byte_CACHE arg = ret None"

definition byte_PRECALL :: "pyval \<Rightarrow> vm \<Rightarrow> string option res" where
  "byte_PRECALL arg = ret None"

definition byte_BEFORE_ASYNC_WITH :: "pyval \<Rightarrow> vm \<Rightarrow> string option res" where
  "byte_BEFORE_ASYNC_WITH arg = ret None"

definition byte_GET_AWAITABLE :: "pyval \<Rightarrow> vm \<Rightarrow> string option res" where
  "byte_GET_AWAITABLE arg = ret None"

definition byte_GET_AITER :: "pyval \<Rightarrow> vm \<Rightarrow> string option res" where
  "byte_GET_AITER arg = ret None"

definition byte_GET_ANEXT :: "pyval \<Rightarrow> vm \<Rightarrow> string option res" where
  "byte_GET_ANEXT arg = ret None"

definition byte_BEFORE_WITH :: "pyval \<Rightarrow> vm \<Rightarrow> string option res" where
  "byte_BEFORE_WITH arg = ret None"

definition byte_CALL :: "host \<Rightarrow> caller \<Rightarrow> pyval \<Rightarrow> vm \<Rightarrow> string option res" where
  "byte_CALL h call arg =
     bnd (popn_val h arg) (\<lambda>posargs.
     bnd pop (\<lambda>func.
     bnd (call func posargs) (\<lambda>retval.
     bnd (push [retval]) no_signal)))"

definition byte_COPY :: "pyval \<Rightarrow> vm \<Rightarrow> string option res" where
  "byte_COPY arg =
     bnd the_frame (\<lambda>f.
       case as_int arg of
         None \<Rightarrow> raise TypeError
       | Some i \<Rightarrow> bnd (lift (py_index (stack f) (- i))) (\<lambda>v. bnd (push [v]) no_signal))"

definition byte_SWAP :: "pyval \<Rightarrow> vm \<Rightarrow> string option res" where
  "byte_SWAP arg =
     (if arg = VInt 2 then
        bnd the_frame (\<lambda>f.
        bnd (lift (py_index (stack f) (- 2))) (\<lambda>a.
        bnd (lift (py_index (stack f) (- 1))) (\<lambda>b s.
          (Inr None, set_frame (f\<lparr>stack := take (length (stack f) - 2) (stack f) @ [b, a]\<rparr>) s))))
      else ret None)"

definition byte_LOAD_FAST_LOAD_FAST :: "host \<Rightarrow> pyval \<Rightarrow> vm \<Rightarrow> string option res" where
  "byte_LOAD_FAST_LOAD_FAST h arg =
     bnd the_frame (\<lambda>f.
     bnd (lift (py_index (co_varnames (code_obj f)) 0)) (\<lambda>var1_name.
     bnd (lift (py_index (co_varnames (code_obj f)) 1)) (\<lambda>var2_name.
     bnd (dict_at (local_names f) (VStr var1_name)) (\<lambda>val1.
     bnd (dict_at (local_names f) (VStr var2_name)) (\<lambda>val2.
     bnd (print_line [value_format h val1, value_format h val2]) (\<lambda>_.
     bnd (push [val1, val2]) (\<lambda>_.
     bnd the_frame (\<lambda>f'.
     bnd (print_line [value_format h (VList (stack f'))]) no_signal))))))))"

definition BINARY_OPS :: "(pyval \<times> string) list" where
  "BINARY_OPS =
     [(VInt 0, ''add''), (VInt 1, ''and_''), (VInt 2, ''floordiv''), (VInt 3, ''lshift''),
      (VInt 4, ''matmul''), (VInt 5, ''mul''), (VInt 6, ''mod''), (VInt 7, ''or_''),
      (VInt 8, ''pow''), (VInt 9, ''rshift''), (VInt 10, ''sub''), (VInt 11, ''truediv''),
      (VInt 12, ''xor'')]"

definition byte_BINARY_OP :: "host \<Rightarrow> pyval \<Rightarrow> vm \<Rightarrow> string option res" where
  "byte_BINARY_OP h arg =
     bnd the_frame (\<lambda>f.
       if length (stack f) < 2 then raise VirtualMachineError
       else if \<not> hashable arg then raise TypeError
       else
         (case map_of BINARY_OPS (dict_key arg) of
            Some name \<Rightarrow>
              bnd (popn 2) (\<lambda>vs.
              bnd (unpack2 vs) (\<lambda>(y, x).
              bnd (lift (operator h name x y)) (\<lambda>result.
              bnd (print_line [value_format h x, value_format h y, value_format h result]) (\<lambda>_.
              bnd (push [result]) no_signal))))
          | None \<Rightarrow> raise VirtualMachineError))"

section \<open>Dispatch\<close>

text \<open>
  Calling a handler with the decoded argument list: a handler without parameter takes
  none, a handler with one parameter takes one, and the handlers declared with
  \<^verbatim>\<open>arg=None\<close> take at most one. Any other number of arguments is a \<^verbatim>\<open>TypeError\<close>.
\<close>

type_synonym handler = "pyval list \<Rightarrow> vm \<Rightarrow> string option res"

definition no_arg :: "(vm \<Rightarrow> string option res) \<Rightarrow> handler" where
  "no_arg m argument = (if argument = [] then m else raise TypeError)"

definition one_arg :: "(pyval \<Rightarrow> vm \<Rightarrow> string option res) \<Rightarrow> handler" where
  "one_arg k argument = (case argument of [a] \<Rightarrow> k a | _ \<Rightarrow> raise TypeError)"

definition opt_arg :: "(pyval \<Rightarrow> vm \<Rightarrow> string option res) \<Rightarrow> handler" where
  "opt_arg k argument =
     (case argument of [] \<Rightarrow> k VNone | [a] \<Rightarrow> k a | _ \<Rightarrow> raise TypeError)"

text \<open>The methods \<^verbatim>\<open>byte_*\<close> of the class, as \<^verbatim>\<open>getattr\<close> finds them.\<close>

definition byte_methods :: "host \<Rightarrow> caller \<Rightarrow> (string \<times> handler) list" where
  "byte_methods h call =
     [(''COMPARE_OP'', one_arg (byte_COMPARE_OP h)),
      (''LOAD_CONST'', one_arg byte_LOAD_CONST),
      (''POP_TOP'', no_arg byte_POP_TOP),
      (''LOAD_NAME'', one_arg (byte_LOAD_NAME h)),
      (''STORE_NAME'', one_arg byte_STORE_NAME),
      (''LOAD_FAST'', one_arg byte_LOAD_FAST),
      (''STORE_FAST'', one_arg byte_STORE_FAST),
      (''LOAD_GLOBAL'', one_arg (byte_LOAD_GLOBAL h)),
      (''LOAD_ATTR'', one_arg (byte_LOAD_ATTR h)),
      (''STORE_ATTR'', one_arg (byte_STORE_ATTR h)),
      (''BUILD_LIST'', one_arg (byte_BUILD_LIST h)),
      (''BUILD_MAP'', one_arg byte_BUILD_MAP),
      (''STORE_MAP'', no_arg (byte_STORE_MAP h)),
      (''LIST_APPEND'', one_arg (byte_LIST_APPEND h)),
      (''JUMP_FORWARD'', one_arg byte_JUMP_FORWARD),
      (''JUMP_ABSOLUTE'', one_arg byte_JUMP_ABSOLUTE),
      (''POP_JUMP_IF_TRUE'', one_arg (byte_POP_JUMP_IF_TRUE h)),
      (''POP_JUMP_IF_FALSE'', one_arg (byte_POP_JUMP_IF_FALSE h)),
      (''SETUP_LOOP'', one_arg byte_SETUP_LOOP),
      (''GET_ITER'', no_arg (byte_GET_ITER h)),
      (''FOR_ITER'', one_arg (byte_FOR_ITER h)),
      (''BREAK_LOOP'', no_arg byte_BREAK_LOOP),
      (''POP_BLOCK'', no_arg byte_POP_BLOCK),
      (''MAKE_FUNCTION'', one_arg (byte_MAKE_FUNCTION h)),
      (''CALL_FUNCTION'', one_arg (byte_CALL_FUNCTION call)),
      (''RETURN_VALUE'', no_arg byte_RETURN_VALUE),
      (''RESUME'', opt_arg byte_RESUME),
      (''CACHE'', opt_arg byte_CACHE),
      (''PRECALL'', opt_arg byte_PRECALL),
      (''CALL'', one_arg (byte_CALL h call)),
      (''BEFORE_ASYNC_WITH'', opt_arg byte_BEFORE_ASYNC_WITH),
      (''GET_AWAITABLE'', opt_arg byte_GET_AWAITABLE),
      (''GET_AITER'', opt_arg byte_GET_AITER),
      (''GET_ANEXT'', opt_arg byte_GET_ANEXT),
      (''BEFORE_WITH'', opt_arg byte_BEFORE_WITH),
      (''COPY'', one_arg byte_COPY),
      (''SWAP'', one_arg byte_SWAP),
      (''LOAD_FAST_LOAD_FAST'', one_arg (byte_LOAD_FAST_LOAD_FAST h)),
      (''BINARY_OP'', one_arg (byte_BINARY_OP h))]"

definition startswith :: "string \<Rightarrow> string \<Rightarrow> bool" where
  "startswith x prefix = (take (length prefix) x = prefix)"

text \<open>
  The body of the \<^verbatim>\<open>try\<close> statement of \<^verbatim>\<open>dispatch\<close>, and \<^verbatim>\<open>dispatch\<close> itself, which
  turns an exception of the body into the signal \<^verbatim>\<open>'exception'\<close> and records it.
\<close>

definition dispatch_body :: "host \<Rightarrow> caller \<Rightarrow> string \<Rightarrow> pyval list \<Rightarrow> vm \<Rightarrow> string option res" where
  "dispatch_body h call byte_name argument =
     (if byte_name = ''BEFORE_ASYNC_WITH'' \<and> length argument = 0 then
        byte_LOAD_FAST_LOAD_FAST h (VInt 1)
      else
        (case map_of (byte_methods h call) byte_name of
           None \<Rightarrow>
             if startswith byte_name ''UNARY_'' then
               bnd (unaryOperator h (drop 6 byte_name)) no_signal
             else if startswith byte_name ''BINARY_'' then
               bnd (binaryOperator h (drop 7 byte_name)) no_signal
             else ret None
         | Some bytecode_fn \<Rightarrow> bytecode_fn argument))"

definition dispatch :: "host \<Rightarrow> caller \<Rightarrow> string \<Rightarrow> pyval list \<Rightarrow> vm \<Rightarrow> string option \<times> vm" where
  "dispatch h call byte_name argument s =
     (case dispatch_body h call byte_name argument s of
        (Inl e, s') \<Rightarrow>
          (Some ''exception'', s'\<lparr>last_exception := Some (VExcClass e, VExcInst e, VNone)\<rparr>)
      | (Inr why, s') \<Rightarrow> (why, s'))"

section \<open>Frames and calls\<close>

text \<open>
  \<^verbatim>\<open>Frame.__init__\<close>: the builtins are those of the previous frame if there is one;
  otherwise the value bound to \<^verbatim>\<open>'__builtins__'\<close> in the locals, replaced by its
  \<^verbatim>\<open>__dict__\<close> if it has one (a module has, and so has a \<^verbatim>\<open>Function\<close>).
\<close>

definition dict_of_value :: "host \<Rightarrow> pyval \<Rightarrow> pyval option" where
  "dict_of_value h v =
     (case v of
        VModule a \<Rightarrow> Some (VDict a)
      | VFunction fn \<Rightarrow> Some (VDict (func_dict fn))
      | VNone \<Rightarrow> None | VBool b \<Rightarrow> None | VInt i \<Rightarrow> None | VStr x \<Rightarrow> None
      | VList xs \<Rightarrow> None | VDict a \<Rightarrow> None | VCode c \<Rightarrow> None | VIter xs \<Rightarrow> None
      | _ \<Rightarrow> host_dict h v)"

definition Frame_init :: "host \<Rightarrow> code \<Rightarrow> nat \<Rightarrow> nat \<Rightarrow> frame option \<Rightarrow> vm \<Rightarrow> frame res" where
  "Frame_init h code_obj' global_names' local_names' prev_frame =
     bnd (case prev_frame of
            Some p \<Rightarrow> ret (builtin_names p)
          | None \<Rightarrow>
              bnd (dict_at local_names' (VStr ''__builtins__'')) (\<lambda>b.
                ret (case dict_of_value h b of Some d \<Rightarrow> d | None \<Rightarrow> b))) (\<lambda>builtins.
       ret \<lparr>code_obj = code_obj', global_names = global_names', local_names = local_names',
            builtin_names = builtins, stack = [], block_stack = [],
            last_instruction = VInt 0\<rparr>)"

text \<open>
  \<^verbatim>\<open>VirtualMachine.make_frame\<close>. The scopes are given as addresses of dictionaries or
  are \<^verbatim>\<open>None\<close>; \<open>callargs\<close> is a dictionary passed by value, it is only read.
\<close>

definition make_frame ::
  "host \<Rightarrow> code \<Rightarrow> dict \<Rightarrow> nat option \<Rightarrow> nat option \<Rightarrow> vm \<Rightarrow> frame res" where
  "make_frame h code callargs global_names' local_names' =
     bnd (case (global_names', local_names') of
            (None, None) \<Rightarrow>
              (\<lambda>s. if frames s \<noteq> [] then
                     bnd the_frame (\<lambda>f. bnd (new_dict []) (\<lambda>l. ret (global_names f, l))) s
                   else
                     bnd (new_dict [(VStr ''__builtins__'', host_builtins h),
                                    (VStr ''__name__'', VStr ''__main__''),
                                    (VStr ''__doc__'', VNone),
                                    (VStr ''__package__'', VNone)]) (\<lambda>l. ret (l, l)) s)
          | (Some g, None) \<Rightarrow> bnd (new_dict []) (\<lambda>l. ret (g, l))
          | (None, Some l) \<Rightarrow> ret (l, l)
          | (Some g, Some l) \<Rightarrow> ret (g, l)) (\<lambda>(g, l).
     bnd (bnd (dict_in l (VStr ''__builtins__'')) (\<lambda>present.
            if \<not> present then
              bnd (\<lambda>s. if dicts s g \<noteq> [] then dict_in g (VStr ''__builtins__'') s
                       else (Inr False, s)) (\<lambda>from_globals.
                if from_globals then
                  bnd (dict_at g (VStr ''__builtins__'')) (\<lambda>b.
                    dict_store l (VStr ''__builtins__'') b)
                else dict_store l (VStr ''__builtins__'') (host_builtins h))
            else ret ())) (\<lambda>_.
     bnd (\<lambda>s. set_dict l (dict_update (dicts s l) callargs) s) (\<lambda>_.
     bnd (\<lambda>s. Frame_init h code g l (cur_frame s) s) ret)))"

definition push_frame :: "frame \<Rightarrow> vm \<Rightarrow> unit res" where
  "push_frame f s = (Inr (), s\<lparr>frames := frames s @ [f]\<rparr>)"

definition pop_frame :: "vm \<Rightarrow> unit res" where
  "pop_frame s =
     (if frames s = [] then (Inl IndexError, s) else (Inr (), s\<lparr>frames := butlast (frames s)\<rparr>))"

text \<open>
  The inner loop of \<^verbatim>\<open>run_frame\<close>:
  \<^verbatim>\<open>while why and frame.block_stack: why = self.manage_block_stack(why)\<close>. Here
  \<^verbatim>\<open>frame\<close> is the frame that \<^verbatim>\<open>run_frame\<close> was given, found at position \<open>idx\<close> of
  the call stack, whereas \<^verbatim>\<open>manage_block_stack\<close> works on \<^verbatim>\<open>self.frame\<close>.
\<close>

definition blocks_at :: "nat \<Rightarrow> vm \<Rightarrow> block list" where
  "blocks_at idx s = (if idx < length (frames s) then block_stack (frames s ! idx) else [])"

definition block_depth :: "vm \<Rightarrow> nat" where
  "block_depth s = (case cur_frame s of None \<Rightarrow> 0 | Some f \<Rightarrow> length (block_stack f))"

function block_loop :: "nat \<Rightarrow> string option \<Rightarrow> vm \<Rightarrow> string option res" where
  "block_loop idx why s =
     (if why_true why \<and> blocks_at idx s \<noteq> [] then
        (case manage_block_stack why s of
           (Inl e, s') \<Rightarrow> (Inl e, s')
         | (Inr why', s') \<Rightarrow> block_loop idx why' s')
      else (Inr why, s))"
  by pat_completeness auto
termination
proof (relation "measure (\<lambda>(idx, why, s). if why_true why then Suc (block_depth s) else 0)")
  show "wf (measure (\<lambda>(idx, why, s). if why_true why then Suc (block_depth s) else 0))"
    by simp
next
  fix idx :: nat and why :: "string option" and s :: vm and e :: "exc_kind + string option"
    and s' :: vm and why' :: "string option"
  assume c: "why_true why \<and> blocks_at idx s \<noteq> []"
    and xe: "(e, s') = manage_block_stack why s" and e: "e = Inr why'"
  have m: "manage_block_stack why s = (Inr why', s')" using xe e by simp
  have down: "pop_down_to k t = (r, t') \<Longrightarrow> block_depth t' = block_depth t" for k t r t'
  proof (induction k t arbitrary: r t' rule: pop_down_to.induct)
    case (1 k t)
    show ?case
    proof (cases "cur_frame t")
      case None
      then show ?thesis using "1.prems" by (simp add: pop_down_to.simps [of k t])
    next
      case (Some f)
      show ?thesis
      proof (cases "k < length (stack f)")
        case False
        then show ?thesis using Some "1.prems" by (simp add: pop_down_to.simps [of k t])
      next
        case True
        then have ne: "stack f \<noteq> []" by auto
        have p: "pop t = (Inr (last (stack f)), set_frame (f\<lparr>stack := butlast (stack f)\<rparr>) t)"
          using Some ne by (simp add: pop_def bnd_def the_frame_def)
        have "pop_down_to k (set_frame (f\<lparr>stack := butlast (stack f)\<rparr>) t) = (r, t')"
          using "1.prems" Some True p by (simp add: pop_down_to.simps [of k t])
        then have "block_depth t' = block_depth (set_frame (f\<lparr>stack := butlast (stack f)\<rparr>) t)"
          using "1.IH" [OF Some True p [symmetric] refl] by simp
        also have "\<dots> = block_depth t"
          using Some by (simp add: block_depth_def cur_frame_def set_frame_def split: if_splits)
        finally show ?thesis .
      qed
    qed
  qed
  have pn: "popn n t = (r, t') \<Longrightarrow> block_depth t' = block_depth t" for n t r t'
    by (cases "cur_frame t")
       (auto simp: popn_def bnd_def the_frame_def ret_def Let_def block_depth_def cur_frame_def
          set_frame_def split: if_splits)
  have unw: "block_depth t' = block_depth t" if u: "unwind_block b t = (r, t')" for b t r t'
  proof -
    obtain r1 t1 where d: "pop_down_to (stack_height b +
        (if b_type b = ''except-handler'' then 3 else 0)) t = (r1, t1)"
      by (cases "pop_down_to (stack_height b +
        (if b_type b = ''except-handler'' then 3 else 0)) t") auto
    have d1: "block_depth t1 = block_depth t" using down [OF d] .
    show ?thesis
    proof (cases r1)
      case (Inl a)
      then show ?thesis using u d d1 by (simp add: unwind_block_def bnd_def Let_def)
    next
      case (Inr u1)
      show ?thesis
      proof (cases "b_type b = ''except-handler''")
        case False
        then show ?thesis using u d d1 Inr by (simp add: unwind_block_def bnd_def Let_def ret_def)
      next
        case True
        obtain r2 t2 where p: "popn 3 t1 = (r2, t2)" by (cases "popn 3 t1") auto
        have d2: "block_depth t2 = block_depth t1" using pn [OF p] .
        show ?thesis
          using u d d1 d2 p Inr True
          by (cases r2)
             (auto simp: unwind_block_def bnd_def Let_def ret_def raise_def unpack3_def
                block_depth_def cur_frame_def split: list.splits)
      qed
    qed
  qed
  have nn: "fst (bnd mm k t) \<noteq> Inr (Some w)"
    if "\<And>a t1. fst (k a t1) \<noteq> Inr (Some w)"
    for mm :: "vm \<Rightarrow> 'z res" and k :: "'z \<Rightarrow> vm \<Rightarrow> string option res" and t and w :: string
    using that by (auto simp: bnd_def split: prod.splits sum.splits)
  have key: "block_depth s' < block_depth s" if wt: "why_true why'"
  proof -
    obtain w where w: "why' = Some w" using wt by (cases why') (simp_all add: why_true_def)
    obtain frame where cf: "cur_frame s = Some frame"
      using m by (cases "cur_frame s") (simp_all add: manage_block_stack_def bnd_def the_frame_def)
    have ne: "block_stack frame \<noteq> []"
      using m cf
      by (auto simp: manage_block_stack_def bnd_def the_frame_def lift_def py_index_def py_pos_def)
    define b where "b = last (block_stack frame)"
    have ix: "py_index (block_stack frame) (- 1) = Inr b"
      using ne by (cases "block_stack frame" rule: rev_cases)
        (simp_all add: py_index_def py_pos_def b_def nat_add_distrib)
    define s1 where "s1 = set_frame (frame\<lparr>block_stack := butlast (block_stack frame)\<rparr>) s"
    have pb: "pop_block s = (Inr b, s1)"
      using cf ne by (simp add: pop_block_def bnd_def the_frame_def b_def s1_def)
    have d1: "block_depth s1 < block_depth s"
      using cf ne by (simp add: s1_def block_depth_def cur_frame_def set_frame_def)
    obtain r2 s2 where ub: "unwind_block b s1 = (r2, s2)" by (cases "unwind_block b s1") auto
    have d2: "block_depth s2 = block_depth s1" using unw [OF ub] .
    have nc: "\<not> (b_type b = ''loop'' \<and> why = Some ''continue'')"
    proof
      assume a: "b_type b = ''loop'' \<and> why = Some ''continue''"
      have "fst (manage_block_stack why s) \<noteq> Inr (Some w)"
        using cf ix a
        by (simp add: manage_block_stack_def bnd_def the_frame_def lift_def jump_def ret_def)
      then show False using m w by simp
    qed
    have r2: "\<exists>u. r2 = Inr u"
      using m cf ix nc pb ub
      by (cases r2) (auto simp: manage_block_stack_def bnd_def the_frame_def lift_def)
    have rest: "manage_block_stack why s =
        (if b_type b = ''loop'' \<and> why = Some ''break'' then
             bnd (jump (handler b)) (\<lambda>_. ret None)
           else if b_type b \<in> set [''setup-except'', ''finally''] \<and> why = Some ''exception'' then
             bnd (push_block ''except-handler'' VNone) (\<lambda>_.
             bnd (\<lambda>s. case last_exception s of
                         None \<Rightarrow> (Inl TypeError, s)
                       | Some t \<Rightarrow> (Inr t, s)) (\<lambda>(exctype, value, tb).
             bnd (push [tb, value, exctype]) (\<lambda>_.
             bnd (push [tb, value, exctype]) (\<lambda>_.
             bnd (jump (handler b)) (\<lambda>_. ret None)))))
           else if b_type b = ''finally'' then
             bnd (if why \<in> set [Some ''return'', Some ''continue'']
                  then (\<lambda>s. push [return_value s] s) else ret ()) (\<lambda>_.
             bnd (push [why_val why]) (\<lambda>_.
             bnd (jump (handler b)) (\<lambda>_. ret None)))
           else ret why) s2"
      using cf ix nc pb ub r2
      by (auto simp: manage_block_stack_def bnd_def the_frame_def lift_def)
    have last: "manage_block_stack why s = ret why s2"
    proof (rule ccontr)
      assume n: "manage_block_stack why s \<noteq> ret why s2"
      have "fst (manage_block_stack why s) \<noteq> Inr (Some w)"
        using n unfolding rest
        by (auto simp: ret_def split_def split: if_splits intro!: nn)
      then show False using m w by simp
    qed
    then have "s' = s2" using m by (simp add: ret_def)
    then show ?thesis using d1 d2 by simp
  qed
  show "((idx, why', s'), idx, why, s)
       \<in> measure (\<lambda>(idx, why, s). if why_true why then Suc (block_depth s) else 0)"
    using c key by simp
qed

text \<open>
  The loop of \<^verbatim>\<open>run_frame\<close>. The result is the signal that ended the loop, together
  with the value of \<^verbatim>\<open>instruction_count\<close> at that moment.
\<close>

function run_loop :: "host \<Rightarrow> caller \<Rightarrow> nat \<Rightarrow> nat \<Rightarrow> vm \<Rightarrow> (string option \<times> nat) res" where
  "run_loop h call idx instruction_count s =
     (case parse_byte_and_args h s of
        (Inl e, s1) \<Rightarrow> (Inl e, s1)
      | (Inr (byte_name, arguments), s1) \<Rightarrow>
        (case dispatch h call byte_name arguments s1 of
           (why, s2) \<Rightarrow>
           (case block_loop idx why s2 of
              (Inl e, s3) \<Rightarrow> (Inl e, s3)
            | (Inr why', s3) \<Rightarrow>
                if why_true why' then (Inr (why', instruction_count), s3)
                else if instruction_count + 1 > 100 then (Inr (why', instruction_count + 1), s3)
                else run_loop h call idx (instruction_count + 1) s3)))"
  by pat_completeness auto
termination
  by (relation "measure (\<lambda>(h, call, idx, instruction_count, s). 101 - instruction_count)") auto

text \<open>
  The end of \<^verbatim>\<open>run_frame\<close> after the signal \<^verbatim>\<open>'exception'\<close>: the recorded exception
  class is called with the recorded value, the traceback is attached and the result is
  raised. Raising a value that is no exception is a \<^verbatim>\<open>TypeError\<close>.
\<close>

definition reraise :: "host \<Rightarrow> caller \<Rightarrow> vm \<Rightarrow> pyval res" where
  "reraise h call =
     bnd (\<lambda>s. case last_exception s of
                 None \<Rightarrow> (Inl TypeError, s)
               | Some t \<Rightarrow> (Inr t, s)) (\<lambda>(exc, val, tb).
     bnd (case exc of
            VExcClass (HostError n) \<Rightarrow> lift (host_call h exc [val])
          | VExcClass k \<Rightarrow> ret (VExcInst k)
          | _ \<Rightarrow> call exc [val]) (\<lambda>e.
     bnd (case (e, tb) of
            (VExcInst k, VNone) \<Rightarrow> ret ()
          | _ \<Rightarrow> (case host_setattr h e (VStr ''__traceback__'') tb of
                    Some err \<Rightarrow> raise err
                  | None \<Rightarrow> ret ())) (\<lambda>_.
       case e of
         VExcInst k \<Rightarrow> raise k
       | VExcClass k \<Rightarrow> raise k
       | _ \<Rightarrow> raise TypeError)))"

definition run_frame :: "host \<Rightarrow> caller \<Rightarrow> frame \<Rightarrow> vm \<Rightarrow> pyval res" where
  "run_frame h call frame s =
     bnd (push_frame frame) (\<lambda>_.
     bnd (run_loop h call (length (frames s)) 0) (\<lambda>(why, instruction_count).
     bnd pop_frame (\<lambda>_.
       if why = Some ''exception'' then reraise h call
       else (\<lambda>s'. (Inr (return_value s'), s'))))) s"

text \<open>
  Modelled from the spec: \<^verbatim>\<open>inspect.getcallargs\<close> belongs to the host's library and
  is not part of the repository. Section 4.5 of the specification gives the convention:
  excess positional arguments, keyword arguments that match no declared name and missing
  required arguments without default are faults (\<^verbatim>\<open>TypeError\<close>). The definition follows
  the library function for code units whose parameters are all positional-or-keyword.
\<close>

fun bind_named :: "string list \<Rightarrow> (string \<times> pyval) list \<Rightarrow> dict \<Rightarrow> exc_kind + dict" where
  "bind_named args [] arg2value = Inr arg2value"
| "bind_named args ((kw, v) # named) arg2value =
     (if kw \<notin> set args then Inl TypeError
      else if map_of arg2value (VStr kw) \<noteq> None then Inl TypeError
      else bind_named args named (AList.update (VStr kw) v arg2value))"

fun bind_defaults :: "(string \<times> pyval) list \<Rightarrow> dict \<Rightarrow> dict" where
  "bind_defaults [] arg2value = arg2value"
| "bind_defaults ((arg, d) # rest) arg2value =
     bind_defaults rest
       (if map_of arg2value (VStr arg) = None then AList.update (VStr arg) d arg2value
        else arg2value)"

definition getcallargs :: "func \<Rightarrow> pyval list \<Rightarrow> (string \<times> pyval) list \<Rightarrow> exc_kind + dict" where
  "getcallargs fn positional named =
     (let args = take (co_argcount (func_code fn)) (co_varnames (func_code fn));
          defaults = func_defaults fn;
          num_pos = length positional;
          num_args = length args;
          num_defaults = length defaults;
          arg2value = dict_update [] (map (\<lambda>(a, v). (VStr a, v)) (zip args positional))
      in case bind_named args named arg2value of
           Inl e \<Rightarrow> Inl e
         | Inr arg2value \<Rightarrow>
             if num_pos > num_args then Inl TypeError
             else if num_pos < num_args then
               (let req = py_slice args 0 (int num_args - int num_defaults);
                    opt = py_slice args (int num_args - int num_defaults) (int num_args)
                in if \<exists>arg \<in> set req. map_of arg2value (VStr arg) = None then Inl TypeError
                   else Inr (bind_defaults (zip opt defaults) arg2value))
             else Inr arg2value)"

text \<open>
  \<^verbatim>\<open>Function.__call__\<close>: first the frame (\<open>Function_frame\<close>, the first two statements),
  then its execution.
\<close>

definition Function_frame ::
  "host \<Rightarrow> func \<Rightarrow> pyval list \<Rightarrow> (string \<times> pyval) list \<Rightarrow> vm \<Rightarrow> frame res" where
  "Function_frame h fn args kwargs =
     bnd (lift (getcallargs fn args kwargs)) (\<lambda>callargs.
     bnd (new_dict []) (\<lambda>l.
       make_frame h (func_code fn) callargs (Some (func_globals fn)) (Some l)))"

definition Function_call ::
  "host \<Rightarrow> caller \<Rightarrow> func \<Rightarrow> pyval list \<Rightarrow> (string \<times> pyval) list \<Rightarrow> vm \<Rightarrow> pyval res" where
  "Function_call h call fn args kwargs =
     bnd (Function_frame h fn args kwargs) (run_frame h call)"

text \<open>
  Calling a value, \<^verbatim>\<open>func(*posargs)\<close>. A \<^verbatim>\<open>Function\<close> runs in the machine, any other
  value is the host's to call. Each nested call of a \<^verbatim>\<open>Function\<close> recurses through the
  host's own call stack; the first argument is the number of nested calls that stack still
  admits, and the host raises \<^verbatim>\<open>RecursionError\<close> beyond it.
\<close>

primrec call_value :: "nat \<Rightarrow> host \<Rightarrow> caller" where
  "call_value 0 h =
     (\<lambda>f args. case f of
        VFunction fn \<Rightarrow> raise RecursionError
      | _ \<Rightarrow> lift (host_call h f args))"
| "call_value (Suc d) h =
     (\<lambda>f args. case f of
        VFunction fn \<Rightarrow> Function_call h (call_value d h) fn args []
      | _ \<Rightarrow> lift (host_call h f args))"

definition run_code ::
  "host \<Rightarrow> nat \<Rightarrow> code \<Rightarrow> dict \<Rightarrow> nat option \<Rightarrow> nat option \<Rightarrow> vm \<Rightarrow> pyval res" where
  "run_code h depth code callargs global_names' local_names' =
     bnd (make_frame h code callargs global_names' local_names') (run_frame h (call_value depth h))"

text \<open>
  A step keeps the call stack if it never leaves fewer frames than it found. Every step
  of the machine below \<^verbatim>\<open>run_frame\<close> does, and \<^verbatim>\<open>run_frame\<close> itself pops only the frame
  it has pushed.
\<close>

definition keeps_frames :: "(vm \<Rightarrow> 'a res) \<Rightarrow> bool" where
  "keeps_frames m = (\<forall>s. length (frames s) \<le> length (frames (snd (m s))))"

section \<open>A concrete host and concrete states\<close>

text \<open>
  \<^verbatim>\<open>dis.opname\<close> names an opcode number that the instruction set does not define
  \<^verbatim>\<open><n>\<close>.
\<close>

definition digit :: "nat \<Rightarrow> char" where
  "digit n = ''0123456789'' ! (n mod 10)"

definition decimal :: "nat \<Rightarrow> string" where
  "decimal n =
     (if n < 10 then [digit n]
      else if n < 100 then [digit (n div 10), digit n]
      else [digit (n div 100), digit (n div 10), digit n])"

text \<open>
  The opcode numbering of CPython 3.13, for the opcodes that the programs below contain.
  It is the numbering the source refers to: its special case for opcode 1
  (\<^verbatim>\<open>BEFORE_ASYNC_WITH\<close>) and its diagnostic output for opcodes 45 and 149.
\<close>

definition opname_313 :: "nat \<Rightarrow> string" where
  "opname_313 n =
     (if n = 0 then ''CACHE''
      else if n = 1 then ''BEFORE_ASYNC_WITH''
      else if n = 36 then ''RETURN_VALUE''
      else if n = 45 then ''BINARY_OP''
      else if n = 83 then ''LOAD_CONST''
      else if n = 149 then ''RESUME''
      else ''<'' @ decimal n @ ''>'')"

text \<open>
  A host with these tables whose value protocols reject every operand the model does not
  interpret itself; in particular it formats no integer beyond the range that every host
  formats, and no opaque object.
\<close>

definition host_313 :: host where
  "host_313 =
     \<lparr>opname = opname_313, HAVE_ARGUMENT = 44, hasconst = [83], hasname = [], haslocal = [],
      hasjrel = [], host_builtins = VDict 0, host_dict = (\<lambda>_. None),
      host_truth = (\<lambda>_. Inr True), host_binary = (\<lambda>_ _ _. Inl TypeError),
      host_unary = (\<lambda>_ _. Inl TypeError), host_compare = (\<lambda>_ _ _. Inl TypeError),
      host_getattr = (\<lambda>_ _. Inl AttributeError), host_setattr = (\<lambda>_ _ _. Some AttributeError),
      host_setitem = (\<lambda>_ _ _. Inl TypeError),
      host_iter = (\<lambda>_. Inl TypeError), host_next = (\<lambda>_. Inl TypeError),
      host_call = (\<lambda>_ _. Inl TypeError),
      host_format = (\<lambda>v. case v of VInt n \<Rightarrow> Some ValueError | _ \<Rightarrow> Some TypeError),
      host_repr = (\<lambda>v. case v of VInt n \<Rightarrow> Some ValueError | _ \<Rightarrow> Some TypeError)\<rparr>"

text \<open>\<^verbatim>\<open>VirtualMachine.__init__\<close>, with an empty store whose address 0 is reserved.\<close>

definition VirtualMachine_init :: vm where
  "VirtualMachine_init =
     \<lparr>frames = [], return_value = VNone, last_exception = None, dicts = (\<lambda>_. []),
      next_dict = 1\<rparr>"

text \<open>A machine whose only frame runs the given code unit with the given operand stack.\<close>

definition frame_of :: "code \<Rightarrow> pyval list \<Rightarrow> int \<Rightarrow> frame" where
  "frame_of c stk pc =
     \<lparr>code_obj = c, global_names = 0, local_names = 0, builtin_names = VDict 0, stack = stk,
      block_stack = [], last_instruction = VInt pc\<rparr>"

definition vm_of :: "code \<Rightarrow> pyval list \<Rightarrow> int \<Rightarrow> vm" where
  "vm_of c stk pc = VirtualMachine_init\<lparr>frames := [frame_of c stk pc]\<rparr>"

definition code_of :: "8 word list \<Rightarrow> pyval list \<Rightarrow> string list \<Rightarrow> code" where
  "code_of bs consts varnames = Code bs consts [] varnames (length varnames) ''f''"


text \<open>
  A machine with one frame whose three scopes are different dictionaries: the locals at
  address 1 bind \<^verbatim>\<open>x\<close>, the globals at address 2 bind \<^verbatim>\<open>x\<close> and \<^verbatim>\<open>y\<close>, the builtins
  at address 0 bind \<^verbatim>\<open>y\<close> and \<^verbatim>\<open>len\<close>.
\<close>

definition scope_frame :: frame where
  "scope_frame =
     \<lparr>code_obj = code_of [] [] [], global_names = 2, local_names = 1, builtin_names = VDict 0,
      stack = [], block_stack = [], last_instruction = VInt 0\<rparr>"

definition scope_vm :: vm where
  "scope_vm =
     \<lparr>frames = [scope_frame], return_value = VNone, last_exception = None,
      dicts = (\<lambda>_. [])
        (0 := [(VStr ''y'', VInt 30), (VStr ''len'', VHost 7)],
         1 := [(VStr ''x'', VInt 1)],
         2 := [(VStr ''x'', VInt 10), (VStr ''y'', VInt 20)]),
      next_dict = 3\<rparr>"

text \<open>
  The code unit that CPython 3.13 compiles \<^verbatim>\<open>def test_addition(a, b): return a + b\<close>
  to: \<^verbatim>\<open>RESUME 0\<close>, \<^verbatim>\<open>LOAD_FAST_LOAD_FAST 1\<close>, \<^verbatim>\<open>BINARY_OP 0\<close> with its cache entry,
  \<^verbatim>\<open>RETURN_VALUE\<close>, each opcode followed by one operand byte. A frame that runs it with
  the locals \<^verbatim>\<open>a = 2\<close> and \<^verbatim>\<open>b = 5\<close>.
\<close>

definition add_code :: code where
  "add_code = code_of [149, 0, 88, 1, 45, 0, 0, 0, 36, 0] [VNone] [''a'', ''b'']"



text \<open>
  A \<^verbatim>\<open>Function\<close> with the single parameter \<^verbatim>\<open>a\<close> and no default values, whose global
  scope is the dictionary at address 0.
\<close>

definition unary_function :: func where
  "unary_function = Func (VStr ''f'') (code_of [] [] [''a'']) [] 0 0 0 VNone"

text \<open>
  A code unit of 200 \<^verbatim>\<open>CACHE\<close> instructions of one byte each, and nothing else: a
  program that needs more than the instruction budget and never reaches a return.
\<close>

definition idle_code :: code where
  "idle_code = code_of (replicate 200 0) [] []"

section \<open>Properties of the decoder\<close>


lemma py_index_nat: "i < length xs \<Longrightarrow> py_index xs (int i) = Inr (xs ! i)"
  by (simp add: py_index_def py_pos_def)

lemma drop_take_two:
  assumes "i + 2 \<le> length xs"
  shows "drop i (take (i + 2) xs) = [xs ! i, xs ! Suc i]"
proof -
  have a: "i < length xs" and b: "Suc i < length xs" using assms by simp_all
  have "take (Suc (Suc i)) xs = take i xs @ [xs ! i, xs ! Suc i]"
    using a b by (simp add: take_Suc_conv_app_nth)
  moreover have "length (take i xs) = i" using a by simp
  ultimately show ?thesis by simp
qed

lemma py_slice_two:
  assumes "i + 2 \<le> length xs"
  shows "py_slice xs (int i) (int i + 2) = [xs ! i, xs ! Suc i]"
proof -
  have "nat (int i + 2) = i + 2" by simp
  then have "py_clip (length xs) (int i + 2) = i + 2"
    using assms by (simp add: py_clip_def)
  moreover have "py_clip (length xs) (int i) = i"
    using assms by (simp add: py_clip_def)
  ultimately show ?thesis
    using drop_take_two [OF assms] by (simp add: py_slice_def)
qed

lemma parse_at_end:
  assumes "cur_frame s = Some f" and "as_int (last_instruction f) = Some pc"
    and "int (length (co_code (code_obj f))) \<le> pc"
  shows "parse_byte_and_args h s = (Inr (''RETURN_VALUE'', []), s)"
  using assms by (simp add: parse_byte_and_args_def)

lemma parse_short_operand:
  assumes "cur_frame s = Some f" and "as_int (last_instruction f) = Some (int n)"
    and "n < length (co_code (code_obj f))"
    and "HAVE_ARGUMENT h \<le> unat (co_code (code_obj f) ! n)"
    and "length (co_code (code_obj f)) - (n + 1) < 2"
  shows "parse_byte_and_args h s =
           (Inr (opname h (unat (co_code (code_obj f) ! n)), [VInt 0]),
            set_frame (f\<lparr>last_instruction := VInt (int n + 1)\<rparr>) s)"
proof -
  have "int (length (co_code (code_obj f))) \<le> int n + 1 + 1"
    using assms(3,5) by arith
  then show ?thesis
    using assms(1,2,3,4) by (simp add: parse_byte_and_args_def py_index_nat Let_def)
qed

lemma parse_full_operand:
  assumes "cur_frame s = Some f" and "as_int (last_instruction f) = Some (int n)"
    and "n + 2 < length (co_code (code_obj f))"
    and "HAVE_ARGUMENT h \<le> unat (co_code (code_obj f) ! n)"
  shows "parse_byte_and_args h s =
           (Inr (opname h (unat (co_code (code_obj f) ! n)),
                 [resolve_arg h (code_obj f) (unat (co_code (code_obj f) ! n)) (int n + 3)
                    (unat (co_code (code_obj f) ! (n + 1)) OR
                     push_bit 8 (unat (co_code (code_obj f) ! (n + 2))))]),
            set_frame (f\<lparr>last_instruction := VInt (int n + 3)\<rparr>) s)"
proof -
  have sl: "py_slice (co_code (code_obj f)) (int n + 1) (int n + 1 + 2) =
          [co_code (code_obj f) ! (n + 1), co_code (code_obj f) ! Suc (n + 1)]"
    using py_slice_two [of "n + 1" "co_code (code_obj f)"] assms(3)
    by (simp add: add.commute)
  have ix: "py_index (co_code (code_obj f)) (int n) = Inr (co_code (code_obj f) ! n)"
    using assms(3) by (simp add: py_index_nat)
  show ?thesis
    using assms ix sl
    by (simp add: parse_byte_and_args_def Let_def py_index_def py_pos_def add.commute)
qed

lemma parse_no_operand:
  assumes "cur_frame s = Some f" and "as_int (last_instruction f) = Some (int n)"
    and "n < length (co_code (code_obj f))"
    and "unat (co_code (code_obj f) ! n) < HAVE_ARGUMENT h"
  shows "parse_byte_and_args h s =
           (Inr (opname h (unat (co_code (code_obj f) ! n)), []),
            set_frame (f\<lparr>last_instruction := VInt (int n + 1)\<rparr>) s)"
  using assms by (simp add: parse_byte_and_args_def py_index_nat Let_def)


text \<open>
  C4 as stated fails in its second half. In the code unit with the two bytes 83
  (\<^verbatim>\<open>LOAD_CONST\<close>, which takes an operand) and 36, decoding at pointer 0 finds one
  operand byte instead of two. It returns \<^verbatim>\<open>LOAD_CONST\<close> with the operand 0 and leaves
  the pointer at 1, inside the instruction: the next decoding step takes the operand
  byte 36 for the opcode \<^verbatim>\<open>RETURN_VALUE\<close>.
\<close>

theorem parse_byte_and_args_short_operand_counterexample:
  "parse_byte_and_args host_313 (vm_of (code_of [83, 36] [] []) [] 0) =
     (Inr (''LOAD_CONST'', [VInt 0]), vm_of (code_of [83, 36] [] []) [] 1) \<and>
   parse_byte_and_args host_313 (vm_of (code_of [83, 36] [] []) [] 1) =
     (Inr (''RETURN_VALUE'', []), vm_of (code_of [83, 36] [] []) [] 2)"
  by (simp add: parse_byte_and_args_def vm_of_def frame_of_def code_of_def cur_frame_def
        set_frame_def VirtualMachine_init_def host_313_def opname_313_def py_index_def py_pos_def
        Let_def)

text \<open>
  C4, amended. When the instruction pointer of the current frame is at or past the end of
  the instruction stream, decoding returns the opcode \<^verbatim>\<open>RETURN_VALUE\<close> with no operand
  and changes nothing. When the opcode at the pointer takes an operand and fewer than two
  bytes follow it, decoding returns that opcode with the operand 0 and raises no fault,
  and it has moved the pointer by one, past the opcode alone: an operand byte that is
  left is not consumed and is the next byte to be decoded.
\<close>

theorem parse_byte_and_args_end_and_short_operand:
  assumes "cur_frame s = Some f" and "as_int (last_instruction f) = Some pc"
  shows "(int (length (co_code (code_obj f))) \<le> pc \<longrightarrow>
            parse_byte_and_args h s = (Inr (''RETURN_VALUE'', []), s)) \<and>
         (0 \<le> pc \<and> pc < int (length (co_code (code_obj f))) \<and>
          HAVE_ARGUMENT h \<le> unat (co_code (code_obj f) ! nat pc) \<and>
          int (length (co_code (code_obj f))) - (pc + 1) < 2 \<longrightarrow>
            parse_byte_and_args h s =
              (Inr (opname h (unat (co_code (code_obj f) ! nat pc)), [VInt 0]),
               set_frame (f\<lparr>last_instruction := VInt (pc + 1)\<rparr>) s))"
proof (intro conjI impI)
  assume "int (length (co_code (code_obj f))) \<le> pc"
  then show "parse_byte_and_args h s = (Inr (''RETURN_VALUE'', []), s)"
    using assms by (rule_tac parse_at_end) auto
next
  assume a: "0 \<le> pc \<and> pc < int (length (co_code (code_obj f))) \<and>
          HAVE_ARGUMENT h \<le> unat (co_code (code_obj f) ! nat pc) \<and>
          int (length (co_code (code_obj f))) - (pc + 1) < 2"
  then have pc: "pc = int (nat pc)" by simp
  have l: "as_int (last_instruction f) = Some (int (nat pc))" using assms(2) pc by simp
  have n: "nat pc < length (co_code (code_obj f))" using a by linarith
  have sh: "length (co_code (code_obj f)) - (nat pc + 1) < 2" using a by linarith
  have "parse_byte_and_args h s =
              (Inr (opname h (unat (co_code (code_obj f) ! nat pc)), [VInt 0]),
               set_frame (f\<lparr>last_instruction := VInt (int (nat pc) + 1)\<rparr>) s)"
    using parse_short_operand [OF assms(1) l n _ sh] a by blast
  then show "parse_byte_and_args h s =
              (Inr (opname h (unat (co_code (code_obj f) ! nat pc)), [VInt 0]),
               set_frame (f\<lparr>last_instruction := VInt (pc + 1)\<rparr>) s)"
    using pc by simp
qed

theorem parse_byte_and_args_end_and_short_operand_witness:
  "parse_byte_and_args host_313 (vm_of (code_of [83, 36] [] []) [] 2) =
     (Inr (''RETURN_VALUE'', []), vm_of (code_of [83, 36] [] []) [] 2) \<and>
   parse_byte_and_args host_313 (vm_of (code_of [83, 36] [] []) [] 0) =
     (Inr (''LOAD_CONST'', [VInt 0]), vm_of (code_of [83, 36] [] []) [] 1) \<and>
   parse_byte_and_args host_313 (vm_of (code_of [45] [] []) [] 0) =
     (Inr (''BINARY_OP'', [VInt 0]), vm_of (code_of [45] [] []) [] 1)"
  using parse_byte_and_args_end_and_short_operand
          [of "vm_of (code_of [83, 36] [] []) [] 2" "frame_of (code_of [83, 36] [] []) [] 2" 2
              host_313]
        parse_byte_and_args_end_and_short_operand
          [of "vm_of (code_of [83, 36] [] []) [] 0" "frame_of (code_of [83, 36] [] []) [] 0" 0
              host_313]
        parse_byte_and_args_end_and_short_operand
          [of "vm_of (code_of [45] [] []) [] 0" "frame_of (code_of [45] [] []) [] 0" 0 host_313]
  by (simp add: vm_of_def frame_of_def code_of_def cur_frame_def set_frame_def
        VirtualMachine_init_def host_313_def opname_313_def)

text \<open>
  C5 as stated fails: with the constant-index opcode \<^verbatim>\<open>LOAD_CONST\<close> (83), the operand
  index 5 and an empty constant pool, decoding raises nothing and returns the operand
  \<^verbatim>\<open>None\<close>.
\<close>

theorem parse_byte_and_args_const_out_of_range_counterexample:
  "83 \<in> set (hasconst host_313) \<and>
   \<not> 5 < length (co_consts (code_of [83, 5, 0] [] [])) \<and>
   parse_byte_and_args host_313 (vm_of (code_of [83, 5, 0] [] []) [] 0) =
     (Inr (''LOAD_CONST'', [VNone]), vm_of (code_of [83, 5, 0] [] []) [] 3)"
  by (simp add: parse_byte_and_args_def vm_of_def frame_of_def code_of_def cur_frame_def
        set_frame_def VirtualMachine_init_def host_313_def opname_313_def py_index_def py_pos_def
        py_slice_def py_clip_def resolve_arg_def Let_def)

text \<open>
  C5, amended. For a constant-index opcode whose complete operand is an index outside the
  constant pool, decoding raises no fault: it returns the opcode with the operand
  \<^verbatim>\<open>None\<close> and moves the pointer behind the operand.
\<close>

theorem parse_byte_and_args_const_out_of_range:
  assumes "cur_frame s = Some f" and "as_int (last_instruction f) = Some (int n)"
    and "n + 2 < length (co_code (code_obj f))"
    and "HAVE_ARGUMENT h \<le> unat (co_code (code_obj f) ! n)"
    and "unat (co_code (code_obj f) ! n) \<in> set (hasconst h)"
    and "length (co_consts (code_obj f)) \<le>
           unat (co_code (code_obj f) ! (n + 1)) OR
           push_bit 8 (unat (co_code (code_obj f) ! (n + 2)))"
  shows "parse_byte_and_args h s =
           (Inr (opname h (unat (co_code (code_obj f) ! n)), [VNone]),
            set_frame (f\<lparr>last_instruction := VInt (int n + 3)\<rparr>) s)"
  using parse_full_operand [OF assms(1,2,3,4)] assms(5,6)
  by (simp add: resolve_arg_def)

theorem parse_byte_and_args_const_out_of_range_witness:
  "parse_byte_and_args host_313 (vm_of (code_of [83, 5, 0] [] []) [] 0) =
     (Inr (''LOAD_CONST'', [VNone]), vm_of (code_of [83, 5, 0] [] []) [] 3)"
  using parse_byte_and_args_const_out_of_range
          [of "vm_of (code_of [83, 5, 0] [] []) [] 0" "frame_of (code_of [83, 5, 0] [] []) [] 0"
              0 host_313]
  by (simp add: vm_of_def frame_of_def code_of_def cur_frame_def set_frame_def
        VirtualMachine_init_def host_313_def opname_313_def)

section \<open>Basic facts about the state and the sequencing of steps\<close>

lemma bnd_Inr: "m s = (Inr a, s1) \<Longrightarrow> bnd m k s = k a s1"
  by (simp add: bnd_def)

lemma bnd_Inl: "m s = (Inl e, s1) \<Longrightarrow> bnd m k s = (Inl e, s1)"
  by (simp add: bnd_def)

lemma the_frame_Some: "cur_frame s = Some f \<Longrightarrow> the_frame s = (Inr f, s)"
  by (simp add: the_frame_def)

lemma cur_frame_set_frame: "cur_frame (set_frame g s) = Some g"
  by (simp add: cur_frame_def set_frame_def)

lemma cur_frame_store [simp]:
  "cur_frame (s\<lparr>dicts := d\<rparr>) = cur_frame s"
  "cur_frame (s\<lparr>next_dict := n\<rparr>) = cur_frame s"
  "cur_frame (s\<lparr>return_value := v\<rparr>) = cur_frame s"
  "cur_frame (s\<lparr>last_exception := x\<rparr>) = cur_frame s"
  by (simp_all add: cur_frame_def)

lemma set_frame_same: "cur_frame s = Some f \<Longrightarrow> set_frame f s = s"
  by (auto simp: cur_frame_def set_frame_def split: if_splits)

lemma set_frame_twice: "set_frame g (set_frame f s) = set_frame g s"
  by (simp add: set_frame_def)

lemma push_Some:
  "cur_frame s = Some f \<Longrightarrow> push vals s = (Inr (), set_frame (f\<lparr>stack := stack f @ vals\<rparr>) s)"
  by (simp add: push_def bnd_def the_frame_def)

lemma pop_Some:
  "cur_frame s = Some f \<Longrightarrow> stack f \<noteq> [] \<Longrightarrow>
   pop s = (Inr (last (stack f)), set_frame (f\<lparr>stack := butlast (stack f)\<rparr>) s)"
  by (simp add: pop_def bnd_def the_frame_def)

section \<open>Building a dictionary\<close>

text \<open>
  C10. With a current frame, \<^verbatim>\<open>byte_BUILD_MAP\<close> returns no signal for every operand: it
  puts an empty dictionary at the first unused address of the store and pushes its
  reference. The operand does not occur in the result, nothing is popped, and the values
  already on the stack stay as they are. Reached through \<^verbatim>\<open>dispatch\<close>, it does the same.
\<close>

theorem byte_BUILD_MAP_pushes_empty_dict:
  assumes "cur_frame s = Some f"
  shows "byte_BUILD_MAP sz s =
           (Inr None,
            set_frame (f\<lparr>stack := stack f @ [VDict (next_dict s)]\<rparr>)
              (s\<lparr>dicts := (dicts s)(next_dict s := []), next_dict := Suc (next_dict s)\<rparr>)) \<and>
         dispatch h call ''BUILD_MAP'' [sz] s =
           (None,
            set_frame (f\<lparr>stack := stack f @ [VDict (next_dict s)]\<rparr>)
              (s\<lparr>dicts := (dicts s)(next_dict s := []), next_dict := Suc (next_dict s)\<rparr>))"
proof -
  let ?s1 = "s\<lparr>dicts := (dicts s)(next_dict s := []), next_dict := Suc (next_dict s)\<rparr>"
  have c1: "cur_frame ?s1 = Some f" using assms by simp
  have a: "byte_BUILD_MAP sz s =
             (Inr None, set_frame (f\<lparr>stack := stack f @ [VDict (next_dict s)]\<rparr>) ?s1)"
    using push_Some [OF c1, of "[VDict (next_dict s)]"]
    by (simp add: byte_BUILD_MAP_def bnd_def new_dict_def no_signal_def ret_def)
  have m: "map_of (byte_methods h call) ''BUILD_MAP'' = Some (one_arg byte_BUILD_MAP)"
    by (simp add: byte_methods_def)
  have "dispatch_body h call ''BUILD_MAP'' [sz] s = byte_BUILD_MAP sz s"
    by (simp add: dispatch_body_def m one_arg_def)
  then show ?thesis using a by (simp add: dispatch_def)
qed

theorem byte_BUILD_MAP_pushes_empty_dict_witness:
  "byte_BUILD_MAP (VInt 3) (vm_of (code_of [] [] []) [VInt 9] 0) =
     (Inr None,
      (vm_of (code_of [] [] []) [VInt 9, VDict 1] 0)
        \<lparr>dicts := (\<lambda>_. [])(1 := []), next_dict := 2\<rparr>)"
  using byte_BUILD_MAP_pushes_empty_dict
          [of "vm_of (code_of [] [] []) [VInt 9] 0" "frame_of (code_of [] [] []) [VInt 9] 0"
              "VInt 3" host_313 "call_value 0 host_313"]
  by (simp add: vm_of_def frame_of_def cur_frame_def set_frame_def VirtualMachine_init_def)

section \<open>Name resolution\<close>

lemma push_value_no_signal:
  "cur_frame s = Some f \<Longrightarrow>
   bnd (push [v]) no_signal s = (Inr None, set_frame (f\<lparr>stack := stack f @ [v]\<rparr>) s)"
  by (simp add: push_Some bnd_def no_signal_def ret_def)

text \<open>
  C2. For a hashable name (a string, or a number left unresolved by the decoder) and a
  frame whose builtins are a dictionary, \<^verbatim>\<open>byte_LOAD_NAME\<close> looks the name up in the
  frame's locals, then in its globals, then in its builtins; it pushes the value of the
  first of the three that binds the name and raises \<^verbatim>\<open>NameError\<close> when none does.
  \<^verbatim>\<open>byte_LOAD_FAST\<close> looks in the locals only; for a name that is not bound there it
  raises \<^verbatim>\<open>UnboundLocalError\<close>, whatever globals and builtins hold.
\<close>

theorem byte_LOAD_NAME_and_LOAD_FAST_lookup:
  assumes "cur_frame s = Some f" and "hashable name" and "builtin_names f = VDict ba"
  shows "byte_LOAD_NAME h name s =
           (case map_of (dicts s (local_names f)) (dict_key name) of
              Some v \<Rightarrow> (Inr None, set_frame (f\<lparr>stack := stack f @ [v]\<rparr>) s)
            | None \<Rightarrow>
              (case map_of (dicts s (global_names f)) (dict_key name) of
                 Some v \<Rightarrow> (Inr None, set_frame (f\<lparr>stack := stack f @ [v]\<rparr>) s)
               | None \<Rightarrow>
                 (case map_of (dicts s ba) (dict_key name) of
                    Some v \<Rightarrow> (Inr None, set_frame (f\<lparr>stack := stack f @ [v]\<rparr>) s)
                  | None \<Rightarrow> (Inl NameError, s)))) \<and>
         byte_LOAD_FAST name s =
           (case map_of (dicts s (local_names f)) (dict_key name) of
              Some v \<Rightarrow> (Inr None, set_frame (f\<lparr>stack := stack f @ [v]\<rparr>) s)
            | None \<Rightarrow> (Inl UnboundLocalError, s))"
proof
  show "byte_LOAD_NAME h name s =
           (case map_of (dicts s (local_names f)) (dict_key name) of
              Some v \<Rightarrow> (Inr None, set_frame (f\<lparr>stack := stack f @ [v]\<rparr>) s)
            | None \<Rightarrow>
              (case map_of (dicts s (global_names f)) (dict_key name) of
                 Some v \<Rightarrow> (Inr None, set_frame (f\<lparr>stack := stack f @ [v]\<rparr>) s)
               | None \<Rightarrow>
                 (case map_of (dicts s ba) (dict_key name) of
                    Some v \<Rightarrow> (Inr None, set_frame (f\<lparr>stack := stack f @ [v]\<rparr>) s)
                  | None \<Rightarrow> (Inl NameError, s))))"
  proof (cases "map_of (dicts s (local_names f)) (dict_key name)")
    case (Some v)
    then show ?thesis
      using assms push_value_no_signal [OF assms(1), of v]
      by (simp add: byte_LOAD_NAME_def bnd_def the_frame_def dict_in_def dict_at_def
            dict_contains_def dict_getitem_def)
  next
    case l: None
    show ?thesis
    proof (cases "map_of (dicts s (global_names f)) (dict_key name)")
      case (Some v)
      then show ?thesis
        using assms l push_value_no_signal [OF assms(1), of v]
        by (simp add: byte_LOAD_NAME_def bnd_def the_frame_def dict_in_def dict_at_def
              dict_contains_def dict_getitem_def)
    next
      case g: None
      show ?thesis
      proof (cases "map_of (dicts s ba) (dict_key name)")
        case (Some v)
        then show ?thesis
          using assms l g push_value_no_signal [OF assms(1), of v]
          by (simp add: byte_LOAD_NAME_def bnd_def the_frame_def dict_in_def dict_at_def
                dict_contains_def dict_getitem_def py_contains_def py_getitem_def)
      next
        case None
        then show ?thesis
          using assms l g
          by (simp add: byte_LOAD_NAME_def bnd_def the_frame_def dict_in_def dict_at_def
                dict_contains_def dict_getitem_def py_contains_def py_getitem_def raise_def)
      qed
    qed
  qed
next
  show "byte_LOAD_FAST name s =
           (case map_of (dicts s (local_names f)) (dict_key name) of
              Some v \<Rightarrow> (Inr None, set_frame (f\<lparr>stack := stack f @ [v]\<rparr>) s)
            | None \<Rightarrow> (Inl UnboundLocalError, s))"
  proof (cases "map_of (dicts s (local_names f)) (dict_key name)")
    case (Some v)
    then show ?thesis
      using assms push_value_no_signal [OF assms(1), of v]
      by (simp add: byte_LOAD_FAST_def bnd_def the_frame_def dict_in_def dict_at_def
            dict_contains_def dict_getitem_def)
  next
    case None
    then show ?thesis
      using assms
      by (simp add: byte_LOAD_FAST_def bnd_def the_frame_def dict_in_def dict_at_def
            dict_contains_def dict_getitem_def raise_def)
  qed
qed

text \<open>
  A state for the witness: locals at address 1 bind \<^verbatim>\<open>x\<close>, globals at address 2 bind
  \<^verbatim>\<open>x\<close> and \<^verbatim>\<open>y\<close>, builtins at address 0 bind \<^verbatim>\<open>y\<close> and \<^verbatim>\<open>len\<close>.
\<close>

theorem byte_LOAD_NAME_and_LOAD_FAST_lookup_witness:
  "byte_LOAD_NAME host_313 (VStr ''x'') scope_vm =
     (Inr None, set_frame (scope_frame\<lparr>stack := [VInt 1]\<rparr>) scope_vm) \<and>
   byte_LOAD_NAME host_313 (VStr ''y'') scope_vm =
     (Inr None, set_frame (scope_frame\<lparr>stack := [VInt 20]\<rparr>) scope_vm) \<and>
   byte_LOAD_NAME host_313 (VStr ''len'') scope_vm =
     (Inr None, set_frame (scope_frame\<lparr>stack := [VHost 7]\<rparr>) scope_vm) \<and>
   byte_LOAD_NAME host_313 (VStr ''z'') scope_vm = (Inl NameError, scope_vm) \<and>
   byte_LOAD_FAST (VStr ''x'') scope_vm =
     (Inr None, set_frame (scope_frame\<lparr>stack := [VInt 1]\<rparr>) scope_vm) \<and>
   byte_LOAD_FAST (VStr ''y'') scope_vm = (Inl UnboundLocalError, scope_vm)"
  using byte_LOAD_NAME_and_LOAD_FAST_lookup [of scope_vm scope_frame "VStr ''x''" 0 host_313]
        byte_LOAD_NAME_and_LOAD_FAST_lookup [of scope_vm scope_frame "VStr ''y''" 0 host_313]
        byte_LOAD_NAME_and_LOAD_FAST_lookup [of scope_vm scope_frame "VStr ''len''" 0 host_313]
        byte_LOAD_NAME_and_LOAD_FAST_lookup [of scope_vm scope_frame "VStr ''z''" 0 host_313]
  by (simp add: scope_vm_def scope_frame_def cur_frame_def)

section \<open>Unwinding a block\<close>

lemma pop_down_to_take:
  "cur_frame s = Some f \<Longrightarrow>
   pop_down_to k s = (Inr (), set_frame (f\<lparr>stack := take k (stack f)\<rparr>) s)"
proof (induction k s arbitrary: f rule: pop_down_to.induct)
  case (1 k s)
  show ?case
  proof (cases "k < length (stack f)")
    case False
    then have "f\<lparr>stack := take k (stack f)\<rparr> = f" by simp
    then show ?thesis
      using False "1.prems" set_frame_same [OF "1.prems"]
      by (simp add: pop_down_to.simps [of k s])
  next
    case True
    then have ne: "stack f \<noteq> []" by auto
    let ?g = "f\<lparr>stack := butlast (stack f)\<rparr>"
    have p: "pop s = (Inr (last (stack f)), set_frame ?g s)"
      using pop_Some [OF "1.prems" ne] .
    have ih: "pop_down_to k (set_frame ?g s) =
                (Inr (), set_frame (?g\<lparr>stack := take k (stack ?g)\<rparr>) (set_frame ?g s))"
      using "1.IH" [OF "1.prems" True p [symmetric] refl cur_frame_set_frame] .
    have "take k (butlast (stack f)) = take k (stack f)"
      using True by (simp add: take_butlast)
    then show ?thesis
      using True "1.prems" p ih
      by (simp add: pop_down_to.simps [of k s] set_frame_twice)
  qed
qed

lemma popn_3_deep:
  assumes "cur_frame s = Some f" and "stack f = xs @ [a, b, c]"
  shows "popn 3 s = (Inr [a, b, c], set_frame (f\<lparr>stack := xs\<rparr>) s)"
  using assms by (simp add: popn_def bnd_def the_frame_def py_clip_def Let_def)

text \<open>
  C3. \<^verbatim>\<open>push_block\<close> records the current depth of the operand stack in the new block.
  Unwinding a block that is no exception handler cuts the operand stack back to the
  block's \<open>stack_height\<close> (a stack that deep or deeper ends with exactly that depth) and
  changes nothing else. Unwinding an exception-handler block whose three extra slots are
  on the stack cuts the stack back to \<open>stack_height + 3\<close>, pops these three slots, which
  are traceback, value and type from the bottom up, and makes (type, value, traceback) the
  last exception; the stack then has exactly the depth \<open>stack_height\<close>.
\<close>

theorem unwind_block_truncates:
  assumes "cur_frame s = Some f"
  shows "push_block t hdl s =
           (Inr (), set_frame (f\<lparr>block_stack := block_stack f @
              [\<lparr>b_type = t, handler = hdl, stack_height = length (stack f)\<rparr>]\<rparr>) s) \<and>
         (b_type b \<noteq> ''except-handler'' \<longrightarrow>
            unwind_block b s =
              (Inr (), set_frame (f\<lparr>stack := take (stack_height b) (stack f)\<rparr>) s)) \<and>
         (b_type b = ''except-handler'' \<and> stack_height b + 3 \<le> length (stack f) \<longrightarrow>
            unwind_block b s =
              (Inr (), (set_frame (f\<lparr>stack := take (stack_height b) (stack f)\<rparr>) s)
                 \<lparr>last_exception := Some (stack f ! (stack_height b + 2),
                                          stack f ! (stack_height b + 1),
                                          stack f ! stack_height b)\<rparr>) \<and>
            length (take (stack_height b) (stack f)) = stack_height b)"
proof (intro conjI impI)
  show "push_block t hdl s =
           (Inr (), set_frame (f\<lparr>block_stack := block_stack f @
              [\<lparr>b_type = t, handler = hdl, stack_height = length (stack f)\<rparr>]\<rparr>) s)"
    using assms by (simp add: push_block_def bnd_def the_frame_def)
next
  assume "b_type b \<noteq> ''except-handler''"
  then show "unwind_block b s =
      (Inr (), set_frame (f\<lparr>stack := take (stack_height b) (stack f)\<rparr>) s)"
    using pop_down_to_take [OF assms, of "stack_height b"]
    by (simp add: unwind_block_def bnd_def ret_def)
next
  assume a: "b_type b = ''except-handler'' \<and> stack_height b + 3 \<le> length (stack f)"
  then show "length (take (stack_height b) (stack f)) = stack_height b" by simp
next
  assume a: "b_type b = ''except-handler'' \<and> stack_height b + 3 \<le> length (stack f)"
  let ?n = "stack_height b"
  let ?g = "f\<lparr>stack := take (?n + 3) (stack f)\<rparr>"
  let ?s1 = "set_frame ?g s"
  have d: "pop_down_to (?n + 3) s = (Inr (), ?s1)"
    using pop_down_to_take [OF assms] .
  have c1: "cur_frame ?s1 = Some ?g" by (rule cur_frame_set_frame)
  have i0: "?n < length (stack f)" and i1: "Suc ?n < length (stack f)"
    and i2: "Suc (Suc ?n) < length (stack f)" using a by simp_all
  have "take (Suc (Suc (Suc ?n))) (stack f) =
          take ?n (stack f) @ [stack f ! ?n, stack f ! Suc ?n, stack f ! Suc (Suc ?n)]"
    using i0 i1 i2 by (simp add: take_Suc_conv_app_nth)
  then have st: "stack ?g =
          take ?n (stack f) @ [stack f ! ?n, stack f ! (?n + 1), stack f ! (?n + 2)]"
    by (simp add: numeral_3_eq_3)
  have p: "popn 3 ?s1 =
          (Inr [stack f ! ?n, stack f ! (?n + 1), stack f ! (?n + 2)],
           set_frame (?g\<lparr>stack := take ?n (stack f)\<rparr>) ?s1)"
    using popn_3_deep [OF c1 st] .
  have g: "?g\<lparr>stack := take ?n (stack f)\<rparr> = f\<lparr>stack := take ?n (stack f)\<rparr>" by simp
  show "unwind_block b s =
      (Inr (), (set_frame (f\<lparr>stack := take ?n (stack f)\<rparr>) s)
         \<lparr>last_exception := Some (stack f ! (?n + 2), stack f ! (?n + 1), stack f ! ?n)\<rparr>)"
    using a d p
    by (simp add: unwind_block_def bnd_def unpack3_def ret_def set_frame_twice g)
qed

theorem unwind_block_truncates_witness:
  "unwind_block \<lparr>b_type = ''loop'', handler = VInt 8, stack_height = 1\<rparr>
       (vm_of (code_of [] [] []) [VInt 1, VInt 2, VInt 3] 0) =
     (Inr (), vm_of (code_of [] [] []) [VInt 1] 0) \<and>
   unwind_block \<lparr>b_type = ''except-handler'', handler = VNone, stack_height = 1\<rparr>
       (vm_of (code_of [] [] []) [VInt 1, VNone, VExcInst KeyError, VExcClass KeyError, VInt 5] 0) =
     (Inr (), (vm_of (code_of [] [] []) [VInt 1] 0)
        \<lparr>last_exception := Some (VExcClass KeyError, VExcInst KeyError, VNone)\<rparr>)"
  using unwind_block_truncates
          [of "vm_of (code_of [] [] []) [VInt 1, VInt 2, VInt 3] 0"
              "frame_of (code_of [] [] []) [VInt 1, VInt 2, VInt 3] 0"
              "''loop''" VNone "\<lparr>b_type = ''loop'', handler = VInt 8, stack_height = 1\<rparr>"]
        unwind_block_truncates
          [of "vm_of (code_of [] [] [])
                 [VInt 1, VNone, VExcInst KeyError, VExcClass KeyError, VInt 5] 0"
              "frame_of (code_of [] [] [])
                 [VInt 1, VNone, VExcInst KeyError, VExcClass KeyError, VInt 5] 0"
              "''loop''" VNone
              "\<lparr>b_type = ''except-handler'', handler = VNone, stack_height = 1\<rparr>"]
  by (simp add: vm_of_def frame_of_def cur_frame_def set_frame_def VirtualMachine_init_def)

section \<open>Dispatch\<close>


lemma dispatch_passed:
  "dispatch_body h call byte_name argument s = (Inr why, s') \<Longrightarrow>
   dispatch h call byte_name argument s = (why, s')"
  by (simp add: dispatch_def)

text \<open>
  C6. An opcode name for which the class has no method \<^verbatim>\<open>byte_<name>\<close> and which
  starts with neither \<^verbatim>\<open>UNARY_\<close> nor \<^verbatim>\<open>BINARY_\<close> is ignored by \<^verbatim>\<open>dispatch\<close>: the
  signal is \<^verbatim>\<open>None\<close> and the machine state, with the operand stack, the block stack and
  the instruction pointer of every frame, is the one before.
\<close>

theorem dispatch_unknown_opcode_ignored:
  assumes "byte_name \<notin> fst ` set (byte_methods h call)"
    and "\<not> startswith byte_name ''UNARY_''" and "\<not> startswith byte_name ''BINARY_''"
  shows "dispatch h call byte_name argument s = (None, s)"
proof -
  have n: "map_of (byte_methods h call) byte_name = None"
    using assms(1) by (simp add: map_of_eq_None_iff)
  have "byte_name \<noteq> ''BEFORE_ASYNC_WITH''"
    using assms(1) by (auto simp: byte_methods_def)
  then have "dispatch_body h call byte_name argument s = (Inr None, s)"
    using n assms(2,3) by (simp add: dispatch_body_def ret_def)
  then show ?thesis by (rule dispatch_passed)
qed

theorem dispatch_unknown_opcode_ignored_witness:
  "dispatch host_313 (call_value 0 host_313) ''NOP'' []
     (vm_of (code_of [] [] []) [VInt 1] 0) = (None, vm_of (code_of [] [] []) [VInt 1] 0) \<and>
   dispatch host_313 (call_value 0 host_313) ''<200>'' [VInt 4]
     (vm_of (code_of [] [] []) [VInt 1] 0) = (None, vm_of (code_of [] [] []) [VInt 1] 0)"
  using dispatch_unknown_opcode_ignored
          [of "''NOP''" host_313 "call_value 0 host_313" "[]"
              "vm_of (code_of [] [] []) [VInt 1] 0"]
        dispatch_unknown_opcode_ignored
          [of "''<200>''" host_313 "call_value 0 host_313" "[VInt 4]"
              "vm_of (code_of [] [] []) [VInt 1] 0"]
  by (simp add: byte_methods_def startswith_def)

lemma short_int_small: "\<bar>n\<bar> < 1000 \<Longrightarrow> short_int n"
proof -
  assume a: "\<bar>n\<bar> < 1000"
  have "(10::int) ^ 3 \<le> 10 ^ 640" by (rule power_increasing) simp_all
  then have "(1000::int) \<le> 10 ^ 640" by simp
  then show ?thesis using a unfolding short_int_def by linarith
qed

lemma print_line_ok: "first_fault faults = None \<Longrightarrow> print_line faults s = (Inr (), s)"
  by (simp add: print_line_def ret_def)

lemma print_line_fault: "first_fault faults = Some e \<Longrightarrow> print_line faults s = (Inl e, s)"
  by (simp add: print_line_def raise_def)

lemma byte_LOAD_FAST_LOAD_FAST_bound:
  assumes "cur_frame s = Some f" and "co_varnames (code_obj f) = v1 # v2 # vs"
    and "map_of (dicts s (local_names f)) (VStr v1) = Some a"
    and "map_of (dicts s (local_names f)) (VStr v2) = Some b"
  shows "byte_LOAD_FAST_LOAD_FAST h arg s =
           (case first_fault [value_format h a, value_format h b] of
              Some e \<Rightarrow> (Inl e, s)
            | None \<Rightarrow>
              (case value_format h (VList (stack f @ [a, b])) of
                 Some e \<Rightarrow> (Inl e, set_frame (f\<lparr>stack := stack f @ [a, b]\<rparr>) s)
               | None \<Rightarrow> (Inr None, set_frame (f\<lparr>stack := stack f @ [a, b]\<rparr>) s)))"
proof -
  let ?g = "f\<lparr>stack := stack f @ [a, b]\<rparr>"
  have names: "py_index (co_varnames (code_obj f)) 0 = Inr v1"
    "py_index (co_varnames (code_obj f)) 1 = Inr v2"
    using assms(2) by (simp_all add: py_index_def py_pos_def)
  have vals: "dict_at (local_names f) (VStr v1) s = (Inr a, s)"
    "dict_at (local_names f) (VStr v2) s = (Inr b, s)"
    using assms(3,4) by (simp_all add: dict_at_def dict_getitem_def)
  have start: "byte_LOAD_FAST_LOAD_FAST h arg s =
      bnd (print_line [value_format h a, value_format h b]) (\<lambda>_.
      bnd (push [a, b]) (\<lambda>_.
      bnd the_frame (\<lambda>f'.
      bnd (print_line [value_format h (VList (stack f'))]) no_signal))) s"
    using assms(1) names vals
    by (simp add: byte_LOAD_FAST_LOAD_FAST_def bnd_def the_frame_def lift_def)
  show ?thesis
  proof (cases "first_fault [value_format h a, value_format h b]")
    case (Some e)
    then show ?thesis
      unfolding start by (simp add: bnd_def print_line_fault)
  next
    case None
    have p: "push [a, b] s = (Inr (), set_frame ?g s)" using push_Some [OF assms(1)] .
    have t: "the_frame (set_frame ?g s) = (Inr ?g, set_frame ?g s)"
      by (rule the_frame_Some) (rule cur_frame_set_frame)
    have mid: "byte_LOAD_FAST_LOAD_FAST h arg s =
        bnd (print_line [value_format h (VList (stack f @ [a, b]))]) no_signal (set_frame ?g s)"
      unfolding start using None p t by (simp add: bnd_def print_line_ok)
    show ?thesis
    proof (cases "value_format h (VList (stack f @ [a, b]))")
      case n2: None
      then show ?thesis
        unfolding mid using None by (simp add: bnd_def print_line_ok no_signal_def ret_def)
    next
      case (Some e)
      then show ?thesis
        unfolding mid using None by (simp add: bnd_def print_line_fault)
    qed
  qed
qed




section \<open>Running a frame\<close>

lemma block_loop_no_signal: "block_loop idx None s = (Inr None, s)"
  by (subst block_loop.simps) (simp add: why_true_def)

lemma block_loop_no_blocks: "blocks_at idx s = [] \<Longrightarrow> block_loop idx why s = (Inr why, s)"
  by (subst block_loop.simps) simp

lemma run_loop_step:
  assumes "parse_byte_and_args h s = (Inr (byte_name, arguments), s1)"
    and "dispatch h call byte_name arguments s1 = (None, s2)"
    and "c < 100"
  shows "run_loop h call idx c s = run_loop h call idx (Suc c) s2"
  using assms by (subst run_loop.simps) (simp add: block_loop_no_signal why_true_def)

lemma run_loop_stop:
  assumes "parse_byte_and_args h s = (Inr (byte_name, arguments), s1)"
    and "dispatch h call byte_name arguments s1 = (Some w, s2)"
    and "w \<noteq> []" and "blocks_at idx s2 = []"
  shows "run_loop h call idx c s = (Inr (Some w, c), s2)"
  using assms by (subst run_loop.simps) (simp add: block_loop_no_blocks why_true_def)

lemma byte_BINARY_OP_add:
  assumes "cur_frame s = Some f" and "stack f = [VInt x, VInt y]"
    and "short_int x" and "short_int y" and "short_int (y + x)"
  shows "byte_BINARY_OP h (VInt 0) s = (Inr None, set_frame (f\<lparr>stack := [VInt (y + x)]\<rparr>) s)"
proof -
  let ?g = "f\<lparr>stack := []\<rparr>"
  have p: "popn 2 s = (Inr [VInt x, VInt y], set_frame ?g s)"
    using assms(1,2) by (simp add: popn_def bnd_def the_frame_def py_clip_def Let_def)
  have q: "push [VInt (y + x)] (set_frame ?g s) =
             (Inr (), set_frame (f\<lparr>stack := [VInt (y + x)]\<rparr>) s)"
    using push_Some [OF cur_frame_set_frame, of "[VInt (y + x)]" ?g s]
    by (simp add: set_frame_twice)
  have o: "operator h ''add'' (VInt y) (VInt x) = Inr (VInt (y + x))"
    by (simp add: operator_def int_operator_def)
  have pr: "print_line [value_format h (VInt y), value_format h (VInt x),
              value_format h (VInt (y + x))] (set_frame ?g s) = (Inr (), set_frame ?g s)"
    using assms(3,4,5) by (intro print_line_ok) (simp add: value_format_def)
  show ?thesis
    using assms(1,2) p q o pr
    by (simp add: byte_BINARY_OP_def bnd_def the_frame_def BINARY_OPS_def unpack2_def ret_def
          lift_def no_signal_def)
qed

lemma byte_RETURN_VALUE_top:
  assumes "cur_frame s = Some f" and "stack f = [v]"
  shows "byte_RETURN_VALUE s =
           (Inr (Some ''return''), (set_frame (f\<lparr>stack := []\<rparr>) s)\<lparr>return_value := v\<rparr>)"
  using assms pop_Some [OF assms(1)]
  by (simp add: byte_RETURN_VALUE_def bnd_def the_frame_def ret_def)

lemma opt_arg_pass:
  assumes "length argument \<le> 1" and "\<And>a t. k a t = (Inr None, t)"
  shows "opt_arg k argument s = (Inr None, s)"
proof (cases argument)
  case Nil
  then show ?thesis using assms(2) by (simp add: opt_arg_def)
next
  case (Cons a rest)
  then have "rest = []" using assms(1) by simp
  then show ?thesis using Cons assms(2) by (simp add: opt_arg_def)
qed

lemma dispatch_RESUME:
  assumes "length argument \<le> 1"
  shows "dispatch h call ''RESUME'' argument s = (None, s)"
proof -
  have m: "map_of (byte_methods h call) ''RESUME'' = Some (opt_arg byte_RESUME)"
    by (simp add: byte_methods_def)
  have "opt_arg byte_RESUME argument s = (Inr None, s)"
    by (rule opt_arg_pass [OF assms]) (simp add: byte_RESUME_def ret_def)
  then have "dispatch_body h call ''RESUME'' argument s = (Inr None, s)"
    using m by (simp add: dispatch_body_def)
  then show ?thesis by (rule dispatch_passed)
qed

lemma dispatch_CACHE:
  assumes "length argument \<le> 1"
  shows "dispatch h call ''CACHE'' argument s = (None, s)"
proof -
  have m: "map_of (byte_methods h call) ''CACHE'' = Some (opt_arg byte_CACHE)"
    by (simp add: byte_methods_def)
  have "opt_arg byte_CACHE argument s = (Inr None, s)"
    by (rule opt_arg_pass [OF assms]) (simp add: byte_CACHE_def ret_def)
  then have "dispatch_body h call ''CACHE'' argument s = (Inr None, s)"
    using m by (simp add: dispatch_body_def)
  then show ?thesis by (rule dispatch_passed)
qed

lemma run_frame_add:
  assumes names: "opname h 149 = ''RESUME''" "opname h 1 = ''BEFORE_ASYNC_WITH''"
      "opname h 45 = ''BINARY_OP''" "opname h 0 = ''CACHE''" "opname h 36 = ''RETURN_VALUE''"
    and have_arg: "36 < HAVE_ARGUMENT h" "HAVE_ARGUMENT h \<le> 45"
    and raw: "45 \<notin> set (hasconst h)" "45 \<notin> set (hasname h)" "45 \<notin> set (haslocal h)"
      "45 \<notin> set (hasjrel h)"
    and fr: "code_obj f = add_code" "stack f = []" "block_stack f = []"
      "last_instruction f = VInt 0"
    and la: "map_of (dicts s (local_names f)) (VStr ''a'') = Some (VInt 2)"
    and lb: "map_of (dicts s (local_names f)) (VStr ''b'') = Some (VInt 5)"
  shows "run_frame h call f s = (Inr (VInt 7), s\<lparr>return_value := VInt 7\<rparr>)"
proof -
  define T where "T g = s\<lparr>frames := frames s @ [g]\<rparr>" for g
  have cT: "cur_frame (T g) = Some g" for g by (simp add: T_def cur_frame_def)
  have sT: "set_frame g' (T g) = T g'" for g g' by (simp add: T_def set_frame_def)
  have bT: "blocks_at (length (frames s)) ((T g)\<lparr>return_value := v\<rparr>) = block_stack g" for g v
    by (simp add: T_def blocks_at_def)
  have dT: "dicts (T g) = dicts s" for g by (simp add: T_def)
  have code: "co_code add_code = [149, 0, 88, 1, 45, 0, 0, 0, 36, 0]"
    "co_varnames add_code = [''a'', ''b'']"
    by (simp_all add: add_code_def code_of_def)
  obtain g l b where ff: "f = \<lparr>code_obj = add_code, global_names = g, local_names = l,
      builtin_names = b, stack = [], block_stack = [], last_instruction = VInt 0\<rparr>"
    using fr by (cases f) simp
  define f1 where "f1 = f\<lparr>last_instruction := VInt 3\<rparr>"
  define f2 where "f2 = f\<lparr>last_instruction := VInt 4\<rparr>"
  define f3 where "f3 = f\<lparr>stack := [VInt 2, VInt 5], last_instruction := VInt 4\<rparr>"
  define f4 where "f4 = f\<lparr>stack := [VInt 2, VInt 5], last_instruction := VInt 7\<rparr>"
  define f5 where "f5 = f\<lparr>stack := [VInt 7], last_instruction := VInt 7\<rparr>"
  define f6 where "f6 = f\<lparr>stack := [VInt 7], last_instruction := VInt 8\<rparr>"
  define f7 where "f7 = f\<lparr>stack := [VInt 7], last_instruction := VInt 9\<rparr>"
  define f8 where "f8 = f\<lparr>stack := [], last_instruction := VInt 9\<rparr>"
  have sh: "short_int 2" "short_int 5" "short_int 7"
    by (simp_all add: short_int_small)
  obtain x0 where p0: "parse_byte_and_args h (T f) = (Inr (''RESUME'', [x0]), T f1)"
    using parse_full_operand [of "T f" f 0 h] names have_arg
    by (simp add: ff cT sT code f1_def)
  have d0: "dispatch h call ''RESUME'' [x0] (T f1) = (None, T f1)"
    by (rule dispatch_RESUME) simp
  have p1: "parse_byte_and_args h (T f1) = (Inr (''BEFORE_ASYNC_WITH'', []), T f2)"
    using parse_no_operand [of "T f1" f1 3 h] names have_arg
    by (simp add: ff cT sT code f1_def f2_def)
  have "byte_LOAD_FAST_LOAD_FAST h (VInt 1) (T f2) = (Inr None, T f3)"
    using byte_LOAD_FAST_LOAD_FAST_bound [of "T f2" f2 "''a''" "''b''" "[]" "VInt 2" "VInt 5" h
            "VInt 1"] la lb sh
    by (simp add: ff cT sT dT code f2_def f3_def value_format_def)
  then have "dispatch_body h call ''BEFORE_ASYNC_WITH'' [] (T f2) = (Inr None, T f3)"
    by (simp add: dispatch_body_def)
  then have d1: "dispatch h call ''BEFORE_ASYNC_WITH'' [] (T f2) = (None, T f3)"
    by (rule dispatch_passed)
  have "resolve_arg h add_code 45 7 0 = VInt 0"
    using raw by (simp add: resolve_arg_def)
  then have p2: "parse_byte_and_args h (T f3) = (Inr (''BINARY_OP'', [VInt 0]), T f4)"
    using parse_full_operand [of "T f3" f3 4 h] names have_arg
    by (simp add: ff cT sT code f3_def f4_def)
  have "byte_BINARY_OP h (VInt 0) (T f4) =
          (Inr None, set_frame (f4\<lparr>stack := [VInt (5 + 2)]\<rparr>) (T f4))"
    using sh by (intro byte_BINARY_OP_add) (simp_all add: ff cT f4_def)
  moreover have "map_of (byte_methods h call) ''BINARY_OP'' = Some (one_arg (byte_BINARY_OP h))"
    by (simp add: byte_methods_def)
  ultimately have "dispatch_body h call ''BINARY_OP'' [VInt 0] (T f4) = (Inr None, T f5)"
    by (simp add: ff dispatch_body_def one_arg_def sT f4_def f5_def)
  then have d2: "dispatch h call ''BINARY_OP'' [VInt 0] (T f4) = (None, T f5)"
    by (rule dispatch_passed)
  have p3: "parse_byte_and_args h (T f5) = (Inr (''CACHE'', []), T f6)"
    using parse_no_operand [of "T f5" f5 7 h] names have_arg
    by (simp add: ff cT sT code f5_def f6_def)
  have d3: "dispatch h call ''CACHE'' [] (T f6) = (None, T f6)"
    by (rule dispatch_CACHE) simp
  have p4: "parse_byte_and_args h (T f6) = (Inr (''RETURN_VALUE'', []), T f7)"
    using parse_no_operand [of "T f6" f6 8 h] names have_arg
    by (simp add: ff cT sT code f6_def f7_def)
  have "byte_RETURN_VALUE (T f7) =
          (Inr (Some ''return''), (set_frame (f7\<lparr>stack := []\<rparr>) (T f7))\<lparr>return_value := VInt 7\<rparr>)"
    by (rule byte_RETURN_VALUE_top) (simp_all add: ff cT f7_def)
  moreover have "map_of (byte_methods h call) ''RETURN_VALUE'' = Some (no_arg byte_RETURN_VALUE)"
    by (simp add: byte_methods_def)
  ultimately have "dispatch_body h call ''RETURN_VALUE'' [] (T f7) =
      (Inr (Some ''return''), (T f8)\<lparr>return_value := VInt 7\<rparr>)"
    by (simp add: ff dispatch_body_def no_arg_def sT f7_def f8_def)
  then have d4: "dispatch h call ''RETURN_VALUE'' [] (T f7) =
      (Some ''return'', (T f8)\<lparr>return_value := VInt 7\<rparr>)"
    by (rule dispatch_passed)
  have b8: "blocks_at (length (frames s)) ((T f8)\<lparr>return_value := VInt 7\<rparr>) = []"
    by (simp add: ff bT f8_def)
  have "run_loop h call (length (frames s)) 0 (T f) =
          run_loop h call (length (frames s)) (Suc 0) (T f1)"
    by (rule run_loop_step [OF p0 d0]) simp
  also have "\<dots> = run_loop h call (length (frames s)) (Suc (Suc 0)) (T f3)"
    by (rule run_loop_step [OF p1 d1]) simp
  also have "\<dots> = run_loop h call (length (frames s)) (Suc (Suc (Suc 0))) (T f5)"
    by (rule run_loop_step [OF p2 d2]) simp
  also have "\<dots> = run_loop h call (length (frames s)) (Suc (Suc (Suc (Suc 0)))) (T f6)"
    by (rule run_loop_step [OF p3 d3]) simp
  also have "\<dots> = (Inr (Some ''return'', Suc (Suc (Suc (Suc 0)))),
                    (T f8)\<lparr>return_value := VInt 7\<rparr>)"
    by (rule run_loop_stop [OF p4 d4 _ b8]) simp
  finally have loop: "run_loop h call (length (frames s)) 0 (T f) =
      (Inr (Some ''return'', Suc (Suc (Suc (Suc 0)))), (T f8)\<lparr>return_value := VInt 7\<rparr>)" .
  have "push_frame f s = (Inr (), T f)" by (simp add: push_frame_def T_def)
  moreover have "pop_frame ((T f8)\<lparr>return_value := VInt 7\<rparr>) =
      (Inr (), s\<lparr>return_value := VInt 7\<rparr>)"
    by (simp add: pop_frame_def T_def)
  ultimately show ?thesis
    using loop by (simp add: run_frame_def bnd_def)
qed

lemma make_frame_add:
  "\<exists>fr s'. make_frame h add_code [(VStr ''a'', VInt 2), (VStr ''b'', VInt 5)] (Some g) None s =
             (Inr fr, s') \<and>
           code_obj fr = add_code \<and> stack fr = [] \<and> block_stack fr = [] \<and>
           last_instruction fr = VInt 0 \<and>
           map_of (dicts s' (local_names fr)) (VStr ''a'') = Some (VInt 2) \<and>
           map_of (dicts s' (local_names fr)) (VStr ''b'') = Some (VInt 5) \<and>
           frames s' = frames s \<and> return_value s' = return_value s"
proof -
  let ?l = "next_dict s"
  let ?bk = "VStr ''__builtins__''"
  define s1 where "s1 = s\<lparr>dicts := (dicts s)(?l := []), next_dict := Suc ?l\<rparr>"
  define b where "b = (if dicts s1 g \<noteq> [] \<and> map_of (dicts s1 g) ?bk \<noteq> None
                       then the (map_of (dicts s1 g) ?bk) else host_builtins h)"
  define s3 where "s3 = s1\<lparr>dicts := (dicts s1)
      (?l := [(?bk, b), (VStr ''a'', VInt 2), (VStr ''b'', VInt 5)])\<rparr>"
  have n: "new_dict [] s = (Inr ?l, s1)" by (simp add: new_dict_def s1_def)
  have e: "dicts s1 ?l = []" by (simp add: s1_def)
  have st: "bnd (dict_in ?l ?bk) (\<lambda>present.
            if \<not> present then
              bnd (\<lambda>s. if dicts s g \<noteq> [] then dict_in g ?bk s
                       else (Inr False, s)) (\<lambda>from_globals.
                if from_globals then
                  bnd (dict_at g ?bk) (\<lambda>b.
                    dict_store ?l ?bk b)
                else dict_store ?l ?bk (host_builtins h))
            else ret ()) s1 = (Inr (), s1\<lparr>dicts := (dicts s1)(?l := [(?bk, b)])\<rparr>)"
    using e
    by (auto simp: bnd_def dict_in_def dict_contains_def dict_at_def dict_getitem_def
          dict_store_def dict_setitem_def set_dict_def b_def)
  have up: "(\<lambda>t. set_dict ?l (dict_update (dicts t ?l)
               [(VStr ''a'', VInt 2), (VStr ''b'', VInt 5)]) t)
            (s1\<lparr>dicts := (dicts s1)(?l := [(?bk, b)])\<rparr>) = (Inr (), s3)"
    by (simp add: set_dict_def s3_def)
  obtain bi where fi: "Frame_init h add_code g ?l (cur_frame s3) s3 =
      (Inr \<lparr>code_obj = add_code, global_names = g, local_names = ?l, builtin_names = bi,
            stack = [], block_stack = [], last_instruction = VInt 0\<rparr>, s3)"
    by (cases "cur_frame s3")
       (auto simp: Frame_init_def bnd_def ret_def dict_at_def dict_getitem_def s3_def)
  have "make_frame h add_code [(VStr ''a'', VInt 2), (VStr ''b'', VInt 5)] (Some g) None s =
      (Inr \<lparr>code_obj = add_code, global_names = g, local_names = ?l, builtin_names = bi,
            stack = [], block_stack = [], last_instruction = VInt 0\<rparr>, s3)"
    using n st up fi by (simp add: make_frame_def bnd_def ret_def)
  moreover have "frames s3 = frames s" "return_value s3 = return_value s"
    by (simp_all add: s3_def s1_def)
  moreover have "map_of (dicts s3 ?l) (VStr ''a'') = Some (VInt 2)"
    "map_of (dicts s3 ?l) (VStr ''b'') = Some (VInt 5)"
    by (simp_all add: s3_def)
  ultimately show ?thesis by simp
qed

text \<open>
  C1. Take a host whose \<^verbatim>\<open>dis\<close> tables give the five opcodes of the code unit their
  CPython 3.13 names, with \<^verbatim>\<open>HAVE_ARGUMENT\<close> between \<^verbatim>\<open>RETURN_VALUE\<close> and \<^verbatim>\<open>BINARY_OP\<close>
  and the operand of \<^verbatim>\<open>BINARY_OP\<close> a plain number. On the code unit compiled from
  \<^verbatim>\<open>def test_addition(a, b): return a + b\<close>, called as the test does with the arguments
  \<^verbatim>\<open>a = 2\<close> and \<^verbatim>\<open>b = 5\<close> and a global scope, \<^verbatim>\<open>run_code\<close> returns 7, whatever the
  state of the machine was; the call stack is afterwards as it was before. The decoder
  reads the code unit as \<^verbatim>\<open>RESUME\<close>, then the byte 1 as \<^verbatim>\<open>BEFORE_ASYNC_WITH\<close>, which loads
  both locals, then \<^verbatim>\<open>BINARY_OP 0\<close>, \<^verbatim>\<open>CACHE\<close> and \<^verbatim>\<open>RETURN_VALUE\<close>.
\<close>

theorem run_code_addition_returns_7:
  assumes "opname h 149 = ''RESUME''" and "opname h 1 = ''BEFORE_ASYNC_WITH''"
    and "opname h 45 = ''BINARY_OP''" and "opname h 0 = ''CACHE''"
    and "opname h 36 = ''RETURN_VALUE''"
    and "36 < HAVE_ARGUMENT h" and "HAVE_ARGUMENT h \<le> 45"
    and "45 \<notin> set (hasconst h)" and "45 \<notin> set (hasname h)"
    and "45 \<notin> set (haslocal h)" and "45 \<notin> set (hasjrel h)"
  shows "fst (run_code h depth add_code [(VStr ''a'', VInt 2), (VStr ''b'', VInt 5)]
                (Some g) None s) = Inr (VInt 7) \<and>
         frames (snd (run_code h depth add_code [(VStr ''a'', VInt 2), (VStr ''b'', VInt 5)]
                (Some g) None s)) = frames s"
proof -
  obtain fr s' where
    m: "make_frame h add_code [(VStr ''a'', VInt 2), (VStr ''b'', VInt 5)] (Some g) None s =
          (Inr fr, s')"
    and fr: "code_obj fr = add_code" "stack fr = []" "block_stack fr = []"
      "last_instruction fr = VInt 0"
    and la: "map_of (dicts s' (local_names fr)) (VStr ''a'') = Some (VInt 2)"
    and lb: "map_of (dicts s' (local_names fr)) (VStr ''b'') = Some (VInt 5)"
    and fs: "frames s' = frames s"
    using make_frame_add [of h g s] by blast
  have "run_frame h (call_value depth h) fr s' = (Inr (VInt 7), s'\<lparr>return_value := VInt 7\<rparr>)"
    using assms fr la lb by (rule run_frame_add)
  then have "run_code h depth add_code [(VStr ''a'', VInt 2), (VStr ''b'', VInt 5)]
                (Some g) None s = (Inr (VInt 7), s'\<lparr>return_value := VInt 7\<rparr>)"
    using m by (simp add: run_code_def bnd_def)
  then show ?thesis using fs by simp
qed

theorem run_code_addition_returns_7_witness:
  "fst (run_code host_313 0 add_code [(VStr ''a'', VInt 2), (VStr ''b'', VInt 5)]
          (Some 0) None VirtualMachine_init) = Inr (VInt 7)"
  using run_code_addition_returns_7 [of host_313 0 0 VirtualMachine_init]
  by (simp add: host_313_def opname_313_def)

section \<open>Calling a function\<close>

lemma map_of_dict_update_None:
  "map_of (dict_update d kvs) k = None \<longleftrightarrow>
     map_of d k = None \<and> k \<notin> dict_key ` fst ` set kvs"
proof (induction kvs arbitrary: d)
  case Nil
  then show ?case by simp
next
  case (Cons kv kvs)
  obtain k' v where kv: "kv = (k', v)" by (cases kv)
  show ?case
    using Cons.IH [of "AList.update (dict_key k') v d"]
    by (auto simp: kv update_conv')
qed

lemma bound_positional_None:
  "map_of (dict_update [] (map (\<lambda>(a, v). (VStr a, v)) (zip ps vs))) (VStr x) = None \<longleftrightarrow>
     x \<notin> set (take (length vs) ps)"
proof -
  have "dict_key ` fst ` set (map (\<lambda>(a, v). (VStr a, v)) (zip ps vs)) =
          VStr ` set (take (length vs) ps)"
  proof -
    have "fst ` set (map (\<lambda>(a, v). (VStr a, v)) (zip ps vs)) = VStr ` fst ` set (zip ps vs)"
      by (auto simp: image_iff split_def) force+
    moreover have "fst ` set (zip ps vs) = set (take (length vs) ps)"
      by (metis map_fst_zip_take set_map take_all_iff take_take length_take
            le_cases min_def)
    ultimately show ?thesis by (auto simp: image_iff)
  qed
  then show ?thesis by (auto simp: map_of_dict_update_None)
qed


lemma getcallargs_exact:
  assumes "length positional = length (take (co_argcount (func_code fn)) (co_varnames (func_code fn)))"
  shows "getcallargs fn positional [] =
           Inr (dict_update [] (map (\<lambda>(a, v). (VStr a, v))
                  (zip (take (co_argcount (func_code fn)) (co_varnames (func_code fn)))
                       positional)))"
  using assms by (simp add: getcallargs_def Let_def)

lemma py_slice_all: "py_slice xs 0 (int (length xs)) = xs"
  by (simp add: py_slice_def py_clip_def)

lemma getcallargs_too_few:
  assumes "func_defaults fn = []"
    and "length positional < length (take (co_argcount (func_code fn)) (co_varnames (func_code fn)))"
    and "distinct (co_varnames (func_code fn))"
  shows "getcallargs fn positional [] = Inl TypeError"
proof -
  define ps where "ps = take (co_argcount (func_code fn)) (co_varnames (func_code fn))"
  have d: "distinct ps" using assms(3) by (simp add: ps_def)
  have few: "length positional < length ps" using assms(2) by (simp add: ps_def)
  have in_ps: "ps ! length positional \<in> set ps" using few by (rule nth_mem)
  have "ps ! length positional \<notin> set (take (length positional) ps)"
  proof
    assume "ps ! length positional \<in> set (take (length positional) ps)"
    then obtain i where i: "i < length (take (length positional) ps)"
      and e: "take (length positional) ps ! i = ps ! length positional"
      by (auto simp: in_set_conv_nth)
    have il: "i < length positional" and ip: "i < length ps" using i few by simp_all
    have "ps ! i = ps ! length positional" using e il by simp
    then have "i = length positional"
      using d ip few by (simp add: nth_eq_iff_index_eq)
    then show False using il by simp
  qed
  then have "map_of (dict_update [] (map (\<lambda>(a, v). (VStr a, v)) (zip ps positional)))
               (VStr (ps ! length positional)) = None"
    by (simp add: bound_positional_None)
  then have m: "\<exists>arg \<in> set ps.
      map_of (dict_update [] (map (\<lambda>(a, v). (VStr a, v)) (zip ps positional))) (VStr arg) = None"
    using in_ps by blast
  have "getcallargs fn positional [] =
      (let arg2value = dict_update [] (map (\<lambda>(a, v). (VStr a, v)) (zip ps positional))
       in if length positional > length ps then Inl TypeError
          else if length positional < length ps then
            (let req = py_slice ps 0 (int (length ps) - int (length (func_defaults fn)));
                 opt = py_slice ps (int (length ps) - int (length (func_defaults fn)))
                         (int (length ps))
             in if \<exists>arg \<in> set req. map_of arg2value (VStr arg) = None then Inl TypeError
                else Inr (bind_defaults (zip opt (func_defaults fn)) arg2value))
          else Inr arg2value)"
    unfolding getcallargs_def ps_def [symmetric] by (simp add: Let_def)
  then show ?thesis
    using few m assms(1) by (simp add: Let_def py_slice_all)
qed

lemma Function_frame_bound:
  assumes "getcallargs fn args kwargs = Inr callargs" and "func_globals fn \<noteq> next_dict s"
  shows "\<exists>bi. Function_frame h fn args kwargs s =
           (Inr \<lparr>code_obj = func_code fn, global_names = func_globals fn,
                 local_names = next_dict s, builtin_names = bi, stack = [], block_stack = [],
                 last_instruction = VInt 0\<rparr>,
            s\<lparr>dicts := (dicts s)
                 (next_dict s := dict_update
                    [(VStr ''__builtins__'',
                      case (if dicts s (func_globals fn) \<noteq> []
                            then map_of (dicts s (func_globals fn)) (VStr ''__builtins__'')
                            else None) of
                        Some v \<Rightarrow> v
                      | None \<Rightarrow> host_builtins h)] callargs),
               next_dict := Suc (next_dict s)\<rparr>)"
proof -
  let ?l = "next_dict s"
  let ?g = "func_globals fn"
  let ?bk = "VStr ''__builtins__''"
  define b where "b = (case (if dicts s ?g \<noteq> [] then map_of (dicts s ?g) ?bk else None) of
                        Some v \<Rightarrow> v | None \<Rightarrow> host_builtins h)"
  define s1 where "s1 = s\<lparr>dicts := (dicts s)(?l := []), next_dict := Suc ?l\<rparr>"
  define s3 where "s3 = s\<lparr>dicts := (dicts s)(?l := dict_update [(?bk, b)] callargs),
                           next_dict := Suc ?l\<rparr>"
  have n: "new_dict [] s = (Inr ?l, s1)" by (simp add: new_dict_def s1_def)
  have e: "dicts s1 ?l = []" and g: "dicts s1 ?g = dicts s ?g"
    using assms(2) by (simp_all add: s1_def)
  have st: "bnd (dict_in ?l ?bk) (\<lambda>present.
            if \<not> present then
              bnd (\<lambda>s. if dicts s ?g \<noteq> [] then dict_in ?g ?bk s
                       else (Inr False, s)) (\<lambda>from_globals.
                if from_globals then
                  bnd (dict_at ?g ?bk) (\<lambda>b.
                    dict_store ?l ?bk b)
                else dict_store ?l ?bk (host_builtins h))
            else ret ()) s1 = (Inr (), s1\<lparr>dicts := (dicts s1)(?l := [(?bk, b)])\<rparr>)"
    using e g
    by (auto simp: bnd_def dict_in_def dict_contains_def dict_at_def dict_getitem_def
          dict_store_def dict_setitem_def set_dict_def b_def)
  have up: "(\<lambda>t. set_dict ?l (dict_update (dicts t ?l) callargs) t)
            (s1\<lparr>dicts := (dicts s1)(?l := [(?bk, b)])\<rparr>) = (Inr (), s3)"
    by (simp add: set_dict_def s3_def s1_def)
  have present: "map_of (dicts s3 ?l) ?bk \<noteq> None"
    by (simp add: s3_def map_of_dict_update_None)
  obtain bi where fi: "Frame_init h (func_code fn) ?g ?l (cur_frame s3) s3 =
      (Inr \<lparr>code_obj = func_code fn, global_names = ?g, local_names = ?l, builtin_names = bi,
            stack = [], block_stack = [], last_instruction = VInt 0\<rparr>, s3)"
    using present
    by (cases "cur_frame s3")
       (auto simp: Frame_init_def bnd_def ret_def dict_at_def dict_getitem_def)
  have "make_frame h (func_code fn) callargs (Some ?g) (Some ?l) s1 =
      (Inr \<lparr>code_obj = func_code fn, global_names = ?g, local_names = ?l, builtin_names = bi,
            stack = [], block_stack = [], last_instruction = VInt 0\<rparr>, s3)"
    using st up fi by (simp add: make_frame_def bnd_def ret_def)
  then have "Function_frame h fn args kwargs s =
      (Inr \<lparr>code_obj = func_code fn, global_names = ?g, local_names = ?l, builtin_names = bi,
            stack = [], block_stack = [], last_instruction = VInt 0\<rparr>, s3)"
    using assms(1) n by (simp add: Function_frame_def bnd_def lift_def)
  then show ?thesis unfolding s3_def b_def by blast
qed

text \<open>
  C7 as stated fails in its last part. The function below has the single parameter
  \<^verbatim>\<open>a\<close>; called with the one argument 1, the bound arguments are \<^verbatim>\<open>{'a': 1}\<close>, but the
  locals of the frame that the call constructs hold the entry \<^verbatim>\<open>'__builtins__'\<close> as well.
\<close>

theorem Function_frame_locals_counterexample:
  "getcallargs unary_function [VInt 1] [] = Inr [(VStr ''a'', VInt 1)] \<and>
   Function_frame host_313 unary_function [VInt 1] [] VirtualMachine_init =
     (Inr \<lparr>code_obj = code_of [] [] [''a''], global_names = 0, local_names = 1,
           builtin_names = VDict 0, stack = [], block_stack = [],
           last_instruction = VInt 0\<rparr>,
      VirtualMachine_init
        \<lparr>dicts := (\<lambda>_. [])(1 := [(VStr ''__builtins__'', VDict 0), (VStr ''a'', VInt 1)]),
         next_dict := 2\<rparr>)"
  by (simp add: getcallargs_def Function_frame_def make_frame_def Frame_init_def bnd_def lift_def
        ret_def new_dict_def set_dict_def dict_in_def dict_at_def dict_store_def
        dict_contains_def dict_getitem_def dict_setitem_def dict_of_value_def unary_function_def
        code_of_def VirtualMachine_init_def host_313_def cur_frame_def Let_def)

text \<open>
  C7, amended. Let the parameter names of the function's code unit be distinct and its
  global scope be a dictionary of the store. Called with fewer positional arguments than
  it has parameters, and without default values, the function raises the call-arity fault
  \<^verbatim>\<open>TypeError\<close> and leaves the machine as it was. Called with as many positional
  arguments as it has parameters, it constructs a frame for its code unit and its global
  scope with empty operand and block stacks, whose locals are a new dictionary: the entry
  \<^verbatim>\<open>'__builtins__'\<close> (taken from the global scope if that has one, from the host
  otherwise), updated with the bound arguments.
\<close>

theorem Function_call_arity_and_frame:
  assumes "distinct (co_varnames (func_code fn))" and "func_globals fn \<noteq> next_dict s"
  shows "(func_defaults fn = [] \<and>
          length args < length (take (co_argcount (func_code fn)) (co_varnames (func_code fn)))
            \<longrightarrow> Function_call h call fn args [] s = (Inl TypeError, s)) \<and>
         (length args = length (take (co_argcount (func_code fn)) (co_varnames (func_code fn)))
            \<longrightarrow> (\<exists>bi. Function_frame h fn args [] s =
                  (Inr \<lparr>code_obj = func_code fn, global_names = func_globals fn,
                        local_names = next_dict s, builtin_names = bi, stack = [],
                        block_stack = [], last_instruction = VInt 0\<rparr>,
                   s\<lparr>dicts := (dicts s)
                        (next_dict s := dict_update
                           [(VStr ''__builtins__'',
                             case (if dicts s (func_globals fn) \<noteq> []
                                   then map_of (dicts s (func_globals fn)) (VStr ''__builtins__'')
                                   else None) of
                               Some v \<Rightarrow> v
                             | None \<Rightarrow> host_builtins h)]
                           (dict_update []
                              (map (\<lambda>(a, v). (VStr a, v))
                                 (zip (take (co_argcount (func_code fn))
                                         (co_varnames (func_code fn))) args)))),
                      next_dict := Suc (next_dict s)\<rparr>)))"
proof (intro conjI impI)
  assume a: "func_defaults fn = [] \<and>
          length args < length (take (co_argcount (func_code fn)) (co_varnames (func_code fn)))"
  then have "getcallargs fn args [] = Inl TypeError"
    using assms(1) by (intro getcallargs_too_few) simp_all
  then show "Function_call h call fn args [] s = (Inl TypeError, s)"
    by (simp add: Function_call_def Function_frame_def bnd_def lift_def)
next
  assume "length args = length (take (co_argcount (func_code fn)) (co_varnames (func_code fn)))"
  then have "getcallargs fn args [] =
           Inr (dict_update [] (map (\<lambda>(a, v). (VStr a, v))
                  (zip (take (co_argcount (func_code fn)) (co_varnames (func_code fn))) args)))"
    by (rule getcallargs_exact)
  then show "\<exists>bi. Function_frame h fn args [] s =
                  (Inr \<lparr>code_obj = func_code fn, global_names = func_globals fn,
                        local_names = next_dict s, builtin_names = bi, stack = [],
                        block_stack = [], last_instruction = VInt 0\<rparr>,
                   s\<lparr>dicts := (dicts s)
                        (next_dict s := dict_update
                           [(VStr ''__builtins__'',
                             case (if dicts s (func_globals fn) \<noteq> []
                                   then map_of (dicts s (func_globals fn)) (VStr ''__builtins__'')
                                   else None) of
                               Some v \<Rightarrow> v
                             | None \<Rightarrow> host_builtins h)]
                           (dict_update []
                              (map (\<lambda>(a, v). (VStr a, v))
                                 (zip (take (co_argcount (func_code fn))
                                         (co_varnames (func_code fn))) args)))),
                      next_dict := Suc (next_dict s)\<rparr>)"
    using assms(2) by (rule Function_frame_bound)
qed

theorem Function_call_arity_and_frame_witness:
  "Function_call host_313 (call_value 0 host_313) unary_function [] [] VirtualMachine_init =
     (Inl TypeError, VirtualMachine_init) \<and>
   snd (Function_frame host_313 unary_function [VInt 1] [] VirtualMachine_init) =
     VirtualMachine_init
       \<lparr>dicts := (\<lambda>_. [])(1 := [(VStr ''__builtins__'', VDict 0), (VStr ''a'', VInt 1)]),
        next_dict := 2\<rparr>"
  using Function_call_arity_and_frame
          [of unary_function VirtualMachine_init "[]" host_313 "call_value 0 host_313"]
        Function_call_arity_and_frame
          [of unary_function VirtualMachine_init "[VInt 1]" host_313 "call_value 0 host_313"]
  by (auto simp: unary_function_def code_of_def VirtualMachine_init_def host_313_def)

section \<open>The call stack never shrinks below a running frame\<close>

named_theorems kf

lemma keeps_framesD: "keeps_frames m \<Longrightarrow> m s = (r, s') \<Longrightarrow> length (frames s) \<le> length (frames s')"
  by (auto simp: keeps_frames_def dest: spec [of _ s])

lemma kf_bnd [kf]:
  assumes "keeps_frames m" and "\<And>a. keeps_frames (k a)"
  shows "keeps_frames (bnd m k)"
proof -
  have "length (frames s) \<le> length (frames (snd (bnd m k s)))" for s
  proof (cases "m s")
    case (Pair r s1)
    have l1: "length (frames s) \<le> length (frames s1)" using keeps_framesD [OF assms(1) Pair] .
    show ?thesis
    proof (cases r)
      case (Inl e)
      then show ?thesis using Pair l1 by (simp add: bnd_def)
    next
      case (Inr a)
      obtain r2 s2 where k: "k a s1 = (r2, s2)" by (cases "k a s1")
      have "length (frames s1) \<le> length (frames s2)" using keeps_framesD [OF assms(2) k] .
      then show ?thesis using Pair Inr k l1 by (simp add: bnd_def)
    qed
  qed
  then show ?thesis by (simp add: keeps_frames_def)
qed

lemma kf_same:
  assumes "\<And>s. frames (snd (m s)) = frames s"
  shows "keeps_frames m"
  using assms by (simp add: keeps_frames_def)

lemma length_set_frame: "length (frames s) \<le> length (frames (set_frame f s))"
  by (cases "frames s" rule: rev_cases) (simp_all add: set_frame_def)

lemma kf_ret [kf]: "keeps_frames (ret a)" by (rule kf_same) (simp add: ret_def)
lemma kf_raise [kf]: "keeps_frames (raise e)" by (rule kf_same) (simp add: raise_def)
lemma kf_lift [kf]: "keeps_frames (lift r)" by (rule kf_same) (simp add: lift_def)
lemma kf_the_frame [kf]: "keeps_frames the_frame"
  by (rule kf_same) (simp add: the_frame_def split: option.split)
lemma kf_no_signal [kf]: "keeps_frames (no_signal u)" by (simp add: no_signal_def kf_ret)
lemma kf_print_line [kf]: "keeps_frames (print_line fs)"
  by (rule kf_same) (simp add: print_line_def ret_def raise_def split: option.split)
lemma kf_unpack2 [kf]: "keeps_frames (unpack2 xs)"
  by (rule kf_same) (simp add: unpack2_def ret_def raise_def split: list.split)
lemma kf_unpack3 [kf]: "keeps_frames (unpack3 xs)"
  by (rule kf_same) (simp add: unpack3_def ret_def raise_def split: list.split)
lemma kf_new_dict [kf]: "keeps_frames (new_dict d)" by (rule kf_same) (simp add: new_dict_def)
lemma kf_set_dict [kf]: "keeps_frames (set_dict a d)" by (rule kf_same) (simp add: set_dict_def)
lemma kf_dict_in [kf]: "keeps_frames (dict_in a k)" by (rule kf_same) (simp add: dict_in_def)
lemma kf_dict_at [kf]: "keeps_frames (dict_at a k)" by (rule kf_same) (simp add: dict_at_def)
lemma kf_dict_store [kf]: "keeps_frames (dict_store a k v)"
  by (rule kf_same) (simp add: dict_store_def set_dict_def split: sum.split)
lemma kf_py_contains [kf]: "keeps_frames (py_contains h x k)"
  by (rule kf_same) (simp add: py_contains_def split: pyval.split sum.split)
lemma kf_py_getitem [kf]: "keeps_frames (py_getitem h x k)"
  by (rule kf_same) (simp add: py_getitem_def split: pyval.split)
lemma kf_truthy [kf]: "keeps_frames (truthy h v)"
  by (rule kf_same) (simp add: truthy_def split: pyval.split)

lemma kf_update:
  assumes "\<And>f s. length (frames s) \<le> length (frames (snd (k f s)))"
  shows "keeps_frames (bnd the_frame k)"
  using assms by (auto simp: keeps_frames_def bnd_def the_frame_def split: option.split)

lemma kf_push [kf]: "keeps_frames (push vs)"
  unfolding push_def by (rule kf_update) (simp add: length_set_frame)
lemma kf_pop [kf]: "keeps_frames pop"
  unfolding pop_def by (rule kf_update) (simp add: length_set_frame)
lemma kf_top [kf]: "keeps_frames top"
  unfolding top_def by (intro kf)
lemma kf_popn [kf]: "keeps_frames (popn n)"
  unfolding popn_def by (auto intro!: kf_update kf_ret simp: Let_def length_set_frame)
lemma kf_popn_val [kf]: "keeps_frames (popn_val h n)"
  unfolding popn_val_def by (auto intro!: kf split: option.split)
lemma kf_jump [kf]: "keeps_frames (jump t)"
  unfolding jump_def by (rule kf_update) (simp add: length_set_frame)
lemma kf_set_top [kf]: "keeps_frames (set_top v)"
  unfolding set_top_def by (rule kf_update) (simp add: length_set_frame)
lemma kf_push_block [kf]: "keeps_frames (push_block t hdl)"
  unfolding push_block_def by (rule kf_update) (simp add: length_set_frame)
lemma kf_pop_block [kf]: "keeps_frames pop_block"
  unfolding pop_block_def by (rule kf_update) (simp add: length_set_frame)

lemma kf_unwind_prod [kf]:
  "(\<And>a b. keeps_frames (k a b)) \<Longrightarrow> keeps_frames (case p of (a, b) \<Rightarrow> k a b)"
  by (cases p) simp

lemma kf_if [kf]:
  "(c \<Longrightarrow> keeps_frames m) \<Longrightarrow> (\<not> c \<Longrightarrow> keeps_frames n) \<Longrightarrow> keeps_frames (if c then m else n)"
  by simp

lemma kf_option [kf]:
  "keeps_frames m \<Longrightarrow> (\<And>a. keeps_frames (k a)) \<Longrightarrow>
   keeps_frames (case x of None \<Rightarrow> m | Some a \<Rightarrow> k a)"
  by (cases x) simp_all

lemma kf_sum [kf]:
  "(\<And>e. keeps_frames (m e)) \<Longrightarrow> (\<And>a. keeps_frames (k a)) \<Longrightarrow>
   keeps_frames (case x of Inl e \<Rightarrow> m e | Inr a \<Rightarrow> k a)"
  by (cases x) simp_all

lemma kf_binaryOperator [kf]: "keeps_frames (binaryOperator h op)"
  unfolding binaryOperator_def by (intro kf)

lemma kf_unaryOperator [kf]: "keeps_frames (unaryOperator h op)"
  unfolding unaryOperator_def by (intro kf)

lemma kf_COMPARE_OP [kf]: "keeps_frames (byte_COMPARE_OP h a)"
  unfolding byte_COMPARE_OP_def by (intro kf)

lemma kf_LOAD_CONST [kf]: "keeps_frames (byte_LOAD_CONST a)"
  unfolding byte_LOAD_CONST_def by (intro kf)

lemma kf_POP_TOP [kf]: "keeps_frames byte_POP_TOP"
  unfolding byte_POP_TOP_def by (intro kf)

lemma kf_LOAD_NAME [kf]: "keeps_frames (byte_LOAD_NAME h a)"
  unfolding byte_LOAD_NAME_def by (intro kf)

lemma kf_STORE_NAME [kf]: "keeps_frames (byte_STORE_NAME a)"
  unfolding byte_STORE_NAME_def by (intro kf)

lemma kf_LOAD_FAST [kf]: "keeps_frames (byte_LOAD_FAST a)"
  unfolding byte_LOAD_FAST_def by (intro kf)

lemma kf_STORE_FAST [kf]: "keeps_frames (byte_STORE_FAST a)"
  unfolding byte_STORE_FAST_def by (intro kf)

lemma kf_LOAD_GLOBAL [kf]: "keeps_frames (byte_LOAD_GLOBAL h a)"
  unfolding byte_LOAD_GLOBAL_def by (intro kf)

lemma kf_LOAD_ATTR [kf]: "keeps_frames (byte_LOAD_ATTR h a)"
  unfolding byte_LOAD_ATTR_def by (intro kf)

lemma kf_STORE_ATTR [kf]: "keeps_frames (byte_STORE_ATTR h a)"
  unfolding byte_STORE_ATTR_def by (intro kf)

lemma kf_BUILD_LIST [kf]: "keeps_frames (byte_BUILD_LIST h a)"
  unfolding byte_BUILD_LIST_def by (intro kf)

lemma kf_BUILD_MAP [kf]: "keeps_frames (byte_BUILD_MAP a)"
  unfolding byte_BUILD_MAP_def by (intro kf)

lemma kf_state:
  assumes "\<And>s. length (frames s) \<le> length (frames (snd (m s)))"
  shows "keeps_frames m"
  using assms by (simp add: keeps_frames_def)

lemma kf_STORE_MAP [kf]: "keeps_frames (byte_STORE_MAP h)"
  unfolding byte_STORE_MAP_def
  by (intro kf) (auto split: pyval.split intro!: kf)

lemma kf_append_to:
  "keeps_frames
     (case v of
        VList xs \<Rightarrow> (\<lambda>s. (Inr None, set_frame (g xs) s))
      | the_list \<Rightarrow>
          bnd (lift (host_getattr h the_list (VStr ''append''))) (\<lambda>m.
          bnd (lift (host_call h m [val])) (\<lambda>_. ret None)))"
  by (cases v; simp; (intro kf | (rule kf_state, simp add: length_set_frame)))

lemma kf_LIST_APPEND [kf]: "keeps_frames (byte_LIST_APPEND h a)"
  unfolding byte_LIST_APPEND_def by (intro kf kf_append_to)

lemma kf_JUMP_FORWARD [kf]: "keeps_frames (byte_JUMP_FORWARD a)"
  unfolding byte_JUMP_FORWARD_def by (intro kf)

lemma kf_JUMP_ABSOLUTE [kf]: "keeps_frames (byte_JUMP_ABSOLUTE a)"
  unfolding byte_JUMP_ABSOLUTE_def by (intro kf)

lemma kf_POP_JUMP_IF_TRUE [kf]: "keeps_frames (byte_POP_JUMP_IF_TRUE h a)"
  unfolding byte_POP_JUMP_IF_TRUE_def by (intro kf)

lemma kf_POP_JUMP_IF_FALSE [kf]: "keeps_frames (byte_POP_JUMP_IF_FALSE h a)"
  unfolding byte_POP_JUMP_IF_FALSE_def by (intro kf)

lemma kf_SETUP_LOOP [kf]: "keeps_frames (byte_SETUP_LOOP a)"
  unfolding byte_SETUP_LOOP_def by (intro kf)

lemma kf_GET_ITER [kf]: "keeps_frames (byte_GET_ITER h)"
  unfolding byte_GET_ITER_def by (intro kf)

lemma kf_FOR_ITER [kf]: "keeps_frames (byte_FOR_ITER h a)"
  unfolding byte_FOR_ITER_def by (intro kf)

lemma kf_BREAK_LOOP [kf]: "keeps_frames byte_BREAK_LOOP"
  unfolding byte_BREAK_LOOP_def by (intro kf)

lemma kf_POP_BLOCK [kf]: "keeps_frames byte_POP_BLOCK"
  unfolding byte_POP_BLOCK_def by (intro kf)

lemma kf_Function_init [kf]: "keeps_frames (Function_init h n c g d)"
  unfolding Function_init_def
  by (intro kf) (auto split: pyval.split intro!: kf)

lemma kf_MAKE_FUNCTION [kf]: "keeps_frames (byte_MAKE_FUNCTION h a)"
  unfolding byte_MAKE_FUNCTION_def by (intro kf)

lemma kf_CALL_FUNCTION [kf]:
  "(\<And>f args. keeps_frames (call f args)) \<Longrightarrow> keeps_frames (byte_CALL_FUNCTION call a)"
  unfolding byte_CALL_FUNCTION_def by (intro kf)

lemma kf_RETURN_VALUE [kf]: "keeps_frames byte_RETURN_VALUE"
  unfolding byte_RETURN_VALUE_def
  by (intro kf kf_state) simp_all

lemma kf_pass [kf]:
  "keeps_frames (byte_RESUME a)" "keeps_frames (byte_CACHE a)" "keeps_frames (byte_PRECALL a)"
  "keeps_frames (byte_BEFORE_ASYNC_WITH a)" "keeps_frames (byte_GET_AWAITABLE a)"
  "keeps_frames (byte_GET_AITER a)" "keeps_frames (byte_GET_ANEXT a)"
  "keeps_frames (byte_BEFORE_WITH a)"
  by (simp_all add: byte_RESUME_def byte_CACHE_def byte_PRECALL_def byte_BEFORE_ASYNC_WITH_def
        byte_GET_AWAITABLE_def byte_GET_AITER_def byte_GET_ANEXT_def byte_BEFORE_WITH_def kf_ret)

lemma kf_CALL [kf]:
  "(\<And>f args. keeps_frames (call f args)) \<Longrightarrow> keeps_frames (byte_CALL h call a)"
  unfolding byte_CALL_def by (intro kf)

lemma kf_COPY [kf]: "keeps_frames (byte_COPY a)"
  unfolding byte_COPY_def by (intro kf)

lemma kf_SWAP [kf]: "keeps_frames (byte_SWAP a)"
  unfolding byte_SWAP_def
  by (intro kf kf_state) (simp_all add: length_set_frame)

lemma kf_LOAD_FAST_LOAD_FAST [kf]: "keeps_frames (byte_LOAD_FAST_LOAD_FAST h a)"
  unfolding byte_LOAD_FAST_LOAD_FAST_def by (intro kf)

lemma kf_BINARY_OP [kf]: "keeps_frames (byte_BINARY_OP h a)"
  unfolding byte_BINARY_OP_def by (intro kf)

lemma kf_no_arg [kf]: "keeps_frames m \<Longrightarrow> keeps_frames (no_arg m argument)"
  by (simp add: no_arg_def kf_raise)

lemma kf_one_arg [kf]: "(\<And>a. keeps_frames (k a)) \<Longrightarrow> keeps_frames (one_arg k argument)"
  by (auto simp: one_arg_def kf_raise split: list.split)

lemma kf_opt_arg [kf]: "(\<And>a. keeps_frames (k a)) \<Longrightarrow> keeps_frames (opt_arg k argument)"
  by (auto simp: opt_arg_def kf_raise split: list.split)

lemma kf_methods:
  assumes "\<And>f args. keeps_frames (call f args)"
    and "map_of (byte_methods h call) byte_name = Some fn"
  shows "keeps_frames (fn argument)"
proof -
  have "(byte_name, fn) \<in> set (byte_methods h call)" using assms(2) by (rule map_of_SomeD)
  then show ?thesis
    unfolding byte_methods_def using assms(1)
    by (auto intro!: kf)
qed

lemma kf_dispatch_body:
  assumes "\<And>f args. keeps_frames (call f args)"
  shows "keeps_frames (dispatch_body h call byte_name argument)"
proof (cases "map_of (byte_methods h call) byte_name")
  case None
  then show ?thesis unfolding dispatch_body_def by (auto intro!: kf)
next
  case (Some fn)
  then show ?thesis
    unfolding dispatch_body_def using kf_methods [OF assms Some] by (auto intro!: kf)
qed

lemma dispatch_keeps:
  assumes "\<And>f args. keeps_frames (call f args)"
    and "dispatch h call byte_name argument s = (why, s')"
  shows "length (frames s) \<le> length (frames s')"
proof -
  obtain r s1 where b: "dispatch_body h call byte_name argument s = (r, s1)"
    by (cases "dispatch_body h call byte_name argument s")
  have "length (frames s) \<le> length (frames s1)"
    using keeps_framesD [OF kf_dispatch_body [OF assms(1)] b] .
  then show ?thesis using assms(2) b by (cases r) (auto simp: dispatch_def)
qed

lemma kf_parse [kf]: "keeps_frames (parse_byte_and_args h)"
  by (rule kf_state)
     (auto simp: parse_byte_and_args_def Let_def length_set_frame
        split: option.split sum.split)

lemma kf_snd: "keeps_frames m \<Longrightarrow> length (frames s) \<le> length (frames (snd (m s)))"
  by (simp add: keeps_frames_def)

lemma kf_pop_down_to [kf]: "keeps_frames (pop_down_to k)"
proof (rule kf_state)
  fix s
  show "length (frames s) \<le> length (frames (snd (pop_down_to k s)))"
  proof (cases "cur_frame s")
    case None
    have "pop_down_to k s = (Inl AttributeError, s)"
      by (subst pop_down_to.simps) (simp add: None)
    then show ?thesis by (simp del: pop_down_to.simps)
  next
    case (Some f)
    show ?thesis
      unfolding pop_down_to_take [OF Some] by (simp add: length_set_frame)
  qed
qed

lemma kf_unwind_block [kf]: "keeps_frames (unwind_block b)"
  unfolding unwind_block_def Let_def
  by (intro kf | (rule kf_state, simp))+

lemma kf_jump_return [kf]: "keeps_frames (\<lambda>s. jump (return_value s) s)"
  by (rule kf_state) (simp add: kf_snd [OF kf_jump])

lemma kf_push_return [kf]: "keeps_frames (\<lambda>s. push [return_value s] s)"
  by (rule kf_state) (simp add: kf_snd [OF kf_push])

lemma kf_last_exception [kf]:
  "keeps_frames (\<lambda>s. case last_exception s of None \<Rightarrow> (Inl TypeError, s) | Some t \<Rightarrow> (Inr t, s))"
  by (rule kf_state) (simp split: option.split)

lemma kf_manage_block_stack [kf]: "keeps_frames (manage_block_stack why)"
  unfolding manage_block_stack_def
  by (intro kf)

lemma block_loop_keeps:
  "block_loop idx why s = (r, s') \<Longrightarrow> length (frames s) \<le> length (frames s')"
proof (induction idx why s arbitrary: r s' rule: block_loop.induct)
  case (1 idx why s)
  show ?case
  proof (cases "why_true why \<and> blocks_at idx s \<noteq> []")
    case False
    then show ?thesis
      using "1.prems" by (auto simp add: block_loop.simps [of idx why s] simp del: block_loop.simps)
  next
    case True
    obtain r1 s1 where m: "manage_block_stack why s = (r1, s1)"
      by (cases "manage_block_stack why s")
    have le1: "length (frames s) \<le> length (frames s1)"
      using keeps_framesD [OF kf_manage_block_stack m] .
    show ?thesis
    proof (cases r1)
      case (Inl e)
      then show ?thesis
        using "1.prems" True m le1
        by (simp add: block_loop.simps [of idx why s] del: block_loop.simps)
    next
      case (Inr why')
      have "block_loop idx why' s1 = (r, s')"
        using "1.prems" True m Inr
        by (simp add: block_loop.simps [of idx why s] del: block_loop.simps)
      then have "length (frames s1) \<le> length (frames s')"
        using "1.IH" [OF True m [symmetric] Inr] by simp
      then show ?thesis using le1 by simp
    qed
  qed
qed

lemma run_loop_parse_fault:
  assumes "parse_byte_and_args h s = (Inl e, s1)"
  shows "run_loop h call idx c s = (Inl e, s1)"
  by (subst run_loop.simps) (simp only: assms prod.case sum.case)

lemma run_loop_block_fault:
  assumes "parse_byte_and_args h s = (Inr (byte_name, arguments), s1)"
    and "dispatch h call byte_name arguments s1 = (why, s2)"
    and "block_loop idx why s2 = (Inl e, s3)"
  shows "run_loop h call idx c s = (Inl e, s3)"
  by (subst run_loop.simps) (simp only: assms prod.case sum.case)

lemma run_loop_unfold:
  assumes "parse_byte_and_args h s = (Inr (byte_name, arguments), s1)"
    and "dispatch h call byte_name arguments s1 = (why, s2)"
    and "block_loop idx why s2 = (Inr why', s3)"
  shows "run_loop h call idx c s =
    (if why_true why' then (Inr (why', c), s3)
     else if c + 1 > 100 then (Inr (why', c + 1), s3)
     else run_loop h call idx (c + 1) s3)"
  by (subst run_loop.simps) (simp only: assms prod.case sum.case)

lemma run_loop_keeps:
  "(\<And>f args. keeps_frames (call f args)) \<Longrightarrow> run_loop h call idx c s = (r, s') \<Longrightarrow>
   length (frames s) \<le> length (frames s')"
proof (induction h call idx c s arbitrary: r s' rule: run_loop.induct)
  case (1 h call idx c s)
  note kc1 = "1.prems"(1)
  note run = "1.prems"(2)
  obtain r1 s1 where p: "parse_byte_and_args h s = (r1, s1)"
    by (cases "parse_byte_and_args h s")
  have le1: "length (frames s) \<le> length (frames s1)"
    using keeps_framesD [OF kf_parse p] .
  show ?case
  proof (cases r1)
    case (Inl e)
    then show ?thesis
      using run le1 run_loop_parse_fault [of h s e s1 call idx c] p by simp
  next
    case (Inr ba)
    obtain byte_name arguments where ba: "ba = (byte_name, arguments)" by (cases ba)
    have p': "parse_byte_and_args h s = (Inr (byte_name, arguments), s1)"
      using p Inr ba by simp
    obtain why s2 where d: "dispatch h call byte_name arguments s1 = (why, s2)"
      by (cases "dispatch h call byte_name arguments s1")
    have le2: "length (frames s1) \<le> length (frames s2)"
      using dispatch_keeps [OF kc1 d] .
    obtain r3 s3 where b: "block_loop idx why s2 = (r3, s3)"
      by (cases "block_loop idx why s2")
    have le3: "length (frames s2) \<le> length (frames s3)"
      using block_loop_keeps [OF b] .
    show ?thesis
    proof (cases r3)
      case (Inl e)
      then show ?thesis
        using run le1 le2 le3 run_loop_block_fault [OF p' d, of idx e s3 c] b by simp
    next
      case r3: (Inr why')
      have b': "block_loop idx why s2 = (Inr why', s3)" using b r3 by simp
      note u = run_loop_unfold [OF p' d b', of c]
      show ?thesis
      proof (cases "why_true why' \<or> 100 < c + 1")
        case True
        then show ?thesis
          using run le1 le2 le3 unfolding u by (auto split: if_splits)
      next
        case False
        then have w: "\<not> why_true why'" and c: "\<not> 100 < c + 1" by auto
        have "run_loop h call idx (c + 1) s3 = (r, s')"
          using run w c unfolding u by simp
        then have "length (frames s3) \<le> length (frames s')"
          using "1.IH" [OF p [symmetric] Inr ba [symmetric] d [symmetric] b [symmetric] r3 w c kc1]
          by simp
        then show ?thesis using le1 le2 le3 by simp
      qed
    qed
  qed
qed

lemma kf_reraise:
  assumes "\<And>f args. keeps_frames (call f args)"
  shows "keeps_frames (reraise h call)"
  unfolding reraise_def
  by (intro kf kf_last_exception)
     (auto intro!: kf assms split: pyval.split exc_kind.split option.split)

lemma kf_run_frame:
  assumes kc: "\<And>f args. keeps_frames (call f args)"
  shows "keeps_frames (run_frame h call frame)"
proof (rule kf_state)
  fix s :: vm
  let ?s0 = "s\<lparr>frames := frames s @ [frame]\<rparr>"
  obtain r1 s1 where l: "run_loop h call (length (frames s)) 0 ?s0 = (r1, s1)"
    by (cases "run_loop h call (length (frames s)) 0 ?s0")
  have le1: "Suc (length (frames s)) \<le> length (frames s1)"
    using run_loop_keeps [OF kc l] by simp
  show "length (frames s) \<le> length (frames (snd (run_frame h call frame s)))"
  proof (cases r1)
    case (Inl e)
    then show ?thesis using l le1 by (simp add: run_frame_def bnd_def push_frame_def)
  next
    case (Inr wc)
    obtain why c where wc: "wc = (why, c)" by (cases wc)
    let ?s2 = "s1\<lparr>frames := butlast (frames s1)\<rparr>"
    have ne: "frames s1 \<noteq> []" using le1 by auto
    have le2: "length (frames s) \<le> length (frames ?s2)" using le1 by simp
    have rf: "run_frame h call frame s =
       (if why = Some ''exception'' then reraise h call ?s2 else (Inr (return_value ?s2), ?s2))"
      using l Inr wc ne by (simp add: run_frame_def bnd_def push_frame_def pop_frame_def)
    show ?thesis
    proof (cases "why = Some ''exception''")
      case True
      have "length (frames ?s2) \<le> length (frames (snd (reraise h call ?s2)))"
        by (rule kf_snd [OF kf_reraise [OF kc]])
      then show ?thesis using le2 True unfolding rf by simp
    next
      case False
      then show ?thesis using le2 unfolding rf by simp
    qed
  qed
qed

lemma kf_Frame_init [kf]: "keeps_frames (Frame_init h c g l p)"
  unfolding Frame_init_def by (intro kf kf_option)

lemma kf_make_frame [kf]: "keeps_frames (make_frame h c callargs g l)"
  unfolding make_frame_def
  by (intro kf | (rule kf_state, simp add: kf_snd kf))+

lemma kf_Function_frame [kf]: "keeps_frames (Function_frame h fn args kwargs)"
  unfolding Function_frame_def by (intro kf)

lemma kf_Function_call:
  assumes "\<And>f args. keeps_frames (call f args)"
  shows "keeps_frames (Function_call h call fn args kwargs)"
  unfolding Function_call_def by (intro kf kf_run_frame assms)

lemma kf_call_value: "keeps_frames (call_value d h f args)"
proof (induction d arbitrary: f args)
  case 0
  show ?case by (cases f) (simp_all add: kf)
next
  case (Suc d)
  show ?case by (cases f) (simp_all add: kf kf_Function_call Suc)
qed

section \<open>The instruction budget of a frame\<close>

lemma run_loop_count:
  "run_loop h call idx c s = (Inr (why, n), s') \<Longrightarrow> c \<le> 100 \<Longrightarrow>
   c \<le> n \<and> n \<le> 101 \<and> (why_true why \<longrightarrow> n \<le> 100) \<and> (\<not> why_true why \<longrightarrow> n = 101)"
proof (induction h call idx c s arbitrary: why n s' rule: run_loop.induct)
  case (1 h call idx c s)
  note run = "1.prems"(1)
  note c100 = "1.prems"(2)
  obtain r1 s1 where p: "parse_byte_and_args h s = (r1, s1)"
    by (cases "parse_byte_and_args h s")
  show ?case
  proof (cases r1)
    case (Inl e)
    then show ?thesis
      using run run_loop_parse_fault [of h s e s1 call idx c] p by simp
  next
    case (Inr ba)
    obtain byte_name arguments where ba: "ba = (byte_name, arguments)" by (cases ba)
    have p': "parse_byte_and_args h s = (Inr (byte_name, arguments), s1)"
      using p Inr ba by simp
    obtain w s2 where d: "dispatch h call byte_name arguments s1 = (w, s2)"
      by (cases "dispatch h call byte_name arguments s1")
    obtain r3 s3 where b: "block_loop idx w s2 = (r3, s3)"
      by (cases "block_loop idx w s2")
    show ?thesis
    proof (cases r3)
      case (Inl e)
      then show ?thesis
        using run run_loop_block_fault [OF p' d, of idx e s3 c] b by simp
    next
      case r3: (Inr why')
      have b': "block_loop idx w s2 = (Inr why', s3)" using b r3 by simp
      note u = run_loop_unfold [OF p' d b', of c]
      show ?thesis
      proof (cases "why_true why' \<or> 100 < c + 1")
        case True
        then show ?thesis
          using run c100 unfolding u by (auto split: if_splits)
      next
        case False
        then have w: "\<not> why_true why'" and c: "\<not> 100 < c + 1" by auto
        have r: "run_loop h call idx (c + 1) s3 = (Inr (why, n), s')"
          using run w c unfolding u by simp
        have "c + 1 \<le> 100" using c by simp
        then have "c + 1 \<le> n \<and> n \<le> 101 \<and> (why_true why \<longrightarrow> n \<le> 100) \<and>
            (\<not> why_true why \<longrightarrow> n = 101)"
          using "1.IH" [OF p [symmetric] Inr ba [symmetric] d [symmetric] b [symmetric] r3 w c r]
          by simp
        then show ?thesis by simp
      qed
    qed
  qed
qed

lemma run_loop_idle:
  assumes names: "opname h 0 = ''CACHE''" and have_arg: "0 < HAVE_ARGUMENT h"
  shows "code_obj f = idle_code \<Longrightarrow> last_instruction f = VInt (int c) \<Longrightarrow> c \<le> 100 \<Longrightarrow>
    run_loop h call idx c (s\<lparr>frames := frames s @ [f]\<rparr>) =
      (Inr (None, 101), s\<lparr>frames := frames s @ [f\<lparr>last_instruction := VInt 101\<rparr>]\<rparr>)"
proof (induction "100 - c" arbitrary: c f)
  case 0
  then have c: "c = 100" by simp
  define T where "T g = s\<lparr>frames := frames s @ [g]\<rparr>" for g
  have cf: "cur_frame (T g) = Some g" for g by (simp add: T_def cur_frame_def)
  have sf: "set_frame g' (T g) = T g'" for g g' by (simp add: T_def set_frame_def)
  have p: "parse_byte_and_args h (T f) =
      (Inr (''CACHE'', []), T (f\<lparr>last_instruction := VInt 101\<rparr>))"
    using parse_no_operand [OF cf [of f], of c h] "0.prems" c names have_arg
    by (simp add: idle_code_def code_of_def sf)
  have d: "dispatch h call ''CACHE'' [] (T (f\<lparr>last_instruction := VInt 101\<rparr>)) =
      (None, T (f\<lparr>last_instruction := VInt 101\<rparr>))"
    by (rule dispatch_CACHE) simp
  show ?case
    using run_loop_unfold [OF p d block_loop_no_signal, of idx c] c
    by (simp add: T_def why_true_def)
next
  case (Suc k)
  then have c: "c < 100" by simp
  define T where "T g = s\<lparr>frames := frames s @ [g]\<rparr>" for g
  have cf: "cur_frame (T g) = Some g" for g by (simp add: T_def cur_frame_def)
  have sf: "set_frame g' (T g) = T g'" for g g' by (simp add: T_def set_frame_def)
  let ?f' = "f\<lparr>last_instruction := VInt (int (Suc c))\<rparr>"
  have p: "parse_byte_and_args h (T f) = (Inr (''CACHE'', []), T ?f')"
    using parse_no_operand [OF cf [of f], of c h] Suc.prems c names have_arg
    by (simp add: idle_code_def code_of_def sf add.commute)
  have d: "dispatch h call ''CACHE'' [] (T ?f') = (None, T ?f')"
    by (rule dispatch_CACHE) simp
  have k: "k = 100 - Suc c" using Suc.hyps(2) by simp
  have "run_loop h call idx c (T f) = run_loop h call idx (Suc c) (T ?f')"
    using run_loop_step [OF p d c] .
  also have "\<dots> = (Inr (None, 101), T (?f'\<lparr>last_instruction := VInt 101\<rparr>))"
    unfolding T_def using Suc.hyps(1) [OF k, of ?f'] Suc.prems c by simp
  finally show ?case by (simp add: T_def)
qed

lemma run_loop_return_at_end:
  assumes "stack f = [v]" and "block_stack f = []" and "last_instruction f = VInt pc"
    and "int (length (co_code (code_obj f))) \<le> pc"
  shows "run_loop h call (length (frames s)) c (s\<lparr>frames := frames s @ [f]\<rparr>) =
    (Inr (Some ''return'', c),
     s\<lparr>frames := frames s @ [f\<lparr>stack := []\<rparr>], return_value := v\<rparr>)"
proof -
  define T where "T g = s\<lparr>frames := frames s @ [g]\<rparr>" for g
  have cf: "cur_frame (T g) = Some g" for g by (simp add: T_def cur_frame_def)
  have sf: "set_frame g' (T g) = T g'" for g g' by (simp add: T_def set_frame_def)
  have p: "parse_byte_and_args h (T f) = (Inr (''RETURN_VALUE'', []), T f)"
    using parse_at_end [OF cf [of f], of pc h] assms(3,4) by simp
  have "byte_RETURN_VALUE (T f) =
      (Inr (Some ''return''), (set_frame (f\<lparr>stack := []\<rparr>) (T f))\<lparr>return_value := v\<rparr>)"
    using cf assms(1) by (rule byte_RETURN_VALUE_top)
  moreover have "map_of (byte_methods h call) ''RETURN_VALUE'' = Some (no_arg byte_RETURN_VALUE)"
    by (simp add: byte_methods_def)
  ultimately have "dispatch_body h call ''RETURN_VALUE'' [] (T f) =
      (Inr (Some ''return''), (T (f\<lparr>stack := []\<rparr>))\<lparr>return_value := v\<rparr>)"
    by (simp add: dispatch_body_def no_arg_def sf)
  then have d: "dispatch h call ''RETURN_VALUE'' [] (T f) =
      (Some ''return'', (T (f\<lparr>stack := []\<rparr>))\<lparr>return_value := v\<rparr>)"
    by (rule dispatch_passed)
  have b: "blocks_at (length (frames s)) ((T (f\<lparr>stack := []\<rparr>))\<lparr>return_value := v\<rparr>) = []"
    using assms(2) by (simp add: T_def blocks_at_def)
  show ?thesis
    using run_loop_stop [OF p d _ b, of c] by (simp add: T_def)
qed

text \<open>
  C8. The loop of \<^verbatim>\<open>run_frame\<close> is a total function of the machine state: it ends by a
  fault, by a signal or by its counter. When \<^verbatim>\<open>run_frame\<close> is given a frame on any
  machine state, for any code unit, host and nesting depth, and its loop ends without a
  fault, the value \<open>n\<close> of \<^verbatim>\<open>instruction_count\<close> is at most 101. It is 101 exactly when no
  signal ended the loop: the counter passed 100 after 101 instructions. In that case
  \<^verbatim>\<open>run_frame\<close> pops its frame and returns the machine's pending \<^verbatim>\<open>return_value\<close> like a
  run that reached a return, and raises nothing. A loop that a signal ended has
  completed at most 100 instructions before the one that gave the signal. A fault that
  leaves the loop leaves \<^verbatim>\<open>run_frame\<close> unchanged.
\<close>

theorem run_frame_instruction_cap:
  assumes "run_loop h (call_value depth h) (length (frames s)) 0
             (s\<lparr>frames := frames s @ [frame]\<rparr>) = (r, s')"
  shows "case r of
           Inl e \<Rightarrow> run_frame h (call_value depth h) frame s = (Inl e, s')
         | Inr (why, n) \<Rightarrow>
             n \<le> 101 \<and> (why_true why \<longrightarrow> n \<le> 100) \<and>
             (\<not> why_true why \<longrightarrow>
                n = 101 \<and>
                run_frame h (call_value depth h) frame s =
                  (Inr (return_value s'), s'\<lparr>frames := butlast (frames s')\<rparr>))"
proof (cases r)
  case (Inl e)
  then show ?thesis using assms by (simp add: run_frame_def bnd_def push_frame_def)
next
  case (Inr wn)
  obtain why n where wn: "wn = (why, n)" by (cases wn)
  have run: "run_loop h (call_value depth h) (length (frames s)) 0
      (s\<lparr>frames := frames s @ [frame]\<rparr>) = (Inr (why, n), s')"
    using assms Inr wn by simp
  have cnt: "n \<le> 101 \<and> (why_true why \<longrightarrow> n \<le> 100) \<and> (\<not> why_true why \<longrightarrow> n = 101)"
    using run_loop_count [OF run] by simp
  have "Suc (length (frames s)) \<le> length (frames s')"
    using run_loop_keeps [OF kf_call_value run] by simp
  then have ne: "frames s' \<noteq> []" by auto
  have ret: "run_frame h (call_value depth h) frame s =
      (Inr (return_value s'), s'\<lparr>frames := butlast (frames s')\<rparr>)" if "\<not> why_true why"
  proof -
    have "why \<noteq> Some ''exception''" using that by (auto simp: why_true_def)
    then show ?thesis
      using run ne by (simp add: run_frame_def bnd_def push_frame_def pop_frame_def)
  qed
  show ?thesis using Inr wn cnt ret by simp
qed

theorem run_frame_instruction_cap_witness:
  "run_loop host_313 (call_value 0 host_313) 0 0
     (VirtualMachine_init\<lparr>frames := [frame_of idle_code [] 0]\<rparr>) =
     (Inr (None, 101), VirtualMachine_init\<lparr>frames := [frame_of idle_code [] 101]\<rparr>) \<and>
   run_frame host_313 (call_value 0 host_313) (frame_of idle_code [] 0) VirtualMachine_init =
     (Inr VNone, VirtualMachine_init) \<and>
   run_loop host_313 (call_value 0 host_313) 0 0
     (VirtualMachine_init\<lparr>frames := [frame_of (code_of [] [] []) [VInt 7] 0]\<rparr>) =
     (Inr (Some ''return'', 0),
      VirtualMachine_init\<lparr>frames := [frame_of (code_of [] [] []) [] 0],
        return_value := VInt 7\<rparr>)"
proof -
  have names: "opname host_313 0 = ''CACHE''" and have_arg: "0 < HAVE_ARGUMENT host_313"
    by (simp_all add: host_313_def opname_313_def)
  have l: "run_loop host_313 (call_value 0 host_313) (length (frames VirtualMachine_init)) 0
      (VirtualMachine_init\<lparr>frames := frames VirtualMachine_init @ [frame_of idle_code [] 0]\<rparr>) =
      (Inr (None, 101), VirtualMachine_init\<lparr>frames := [frame_of idle_code [] 101]\<rparr>)"
    using run_loop_idle [OF names have_arg, of "frame_of idle_code [] 0" 0
        "call_value 0 host_313" "length (frames VirtualMachine_init)" VirtualMachine_init]
    by (simp add: frame_of_def VirtualMachine_init_def)
  have r: "run_loop host_313 (call_value 0 host_313) (length (frames VirtualMachine_init)) 0
      (VirtualMachine_init
         \<lparr>frames := frames VirtualMachine_init @ [frame_of (code_of [] [] []) [VInt 7] 0]\<rparr>) =
      (Inr (Some ''return'', 0),
       VirtualMachine_init\<lparr>frames := [frame_of (code_of [] [] []) [] 0],
         return_value := VInt 7\<rparr>)"
    using run_loop_return_at_end [of "frame_of (code_of [] [] []) [VInt 7] 0" "VInt 7" 0
        host_313 "call_value 0 host_313" VirtualMachine_init 0]
    by (simp add: frame_of_def code_of_def VirtualMachine_init_def)
  show ?thesis
    using run_frame_instruction_cap [OF l] run_frame_instruction_cap [OF r] l r
    by (simp add: why_true_def VirtualMachine_init_def)
qed

end
